theory Spec2Isabelle
  imports Complex_Main
begin

section \<open>Data model (models.py)\<close>

text \<open>
  Each SQLAlchemy model class is a record and each table a list of rows in insertion
  order. Columns that no modelled route reads or writes (password hash, profile fields,
  category, timestamps of creation, the favorites table) are left out. Columns of type
  Float are idealised as exact reals; Integer columns are \<open>int\<close>, primary keys and the
  ids parsed by the \<open>int\<close> URL converter are \<open>nat\<close>.
\<close>

record user =
  u_id :: nat
  username :: string
  email :: string
  is_seller :: bool
  is_admin :: bool
  total_earnings :: real

record study_material =
  m_id :: nat
  title :: string
  description :: string
  price :: real
  file_path :: string
  file_type :: string
  views :: int
  downloads :: int
  rating :: real
  rating_count :: int
  is_active :: bool
  seller_id :: nat

record review =
  r_id :: nat
  r_rating :: int
  comment :: "string option"
  r_material_id :: nat
  reviewer_id :: nat
  r_seller_id :: nat

text \<open>class Order\<close>

record order_rec =
  o_id :: nat
  order_number :: string
  total_amount :: real
  status :: string
  payment_method :: string
  completed_at :: "nat option"
  buyer_id :: nat

record order_item =
  oi_id :: nat
  oi_price :: real
  order_id :: nat
  material_id :: nat
  download_count :: int
  last_download :: "nat option"

text \<open>
  The database: one list per table. \<open>cart_items\<close> is the association table of
  (user_id, material_id) rows.
\<close>

record db =
  users :: "user list"
  materials :: "study_material list"
  cart_items :: "(nat \<times> nat) list"
  orders :: "order_rec list"
  order_items :: "order_item list"
  reviews :: "review list"

definition empty_db :: db where
  "empty_db = \<lparr>users = [], materials = [], cart_items = [], orders = [],
     order_items = [], reviews = []\<rparr>"

text \<open>An INTEGER PRIMARY KEY column of SQLite: a new row gets the largest id plus one.\<close>

definition next_id :: "nat list \<Rightarrow> nat" where
  "next_id ids = Suc (foldr max ids 0)"

text \<open>\<open>User.query.get\<close> and \<open>StudyMaterial.query.get\<close>\<close>

definition get_user :: "db \<Rightarrow> nat \<Rightarrow> user option" where
  "get_user s i = find (\<lambda>x. u_id x = i) (users s)"

definition get_material :: "db \<Rightarrow> nat \<Rightarrow> study_material option" where
  "get_material s i = find (\<lambda>m. m_id m = i) (materials s)"

text \<open>
  The relationship \<open>User.cart\<close>: the materials joined to the user's rows of
  \<open>cart_items\<close>.
\<close>

definition cart :: "db \<Rightarrow> nat \<Rightarrow> study_material list" where
  "cart s u = List.map_filter
     (\<lambda>row. if fst row = u then get_material s (snd row) else None) (cart_items s)"

section \<open>Requests and responses\<close>

datatype http_method = GET | POST

text \<open>
  The flashed messages of main.py, named by what they say. The error names of the
  specification are given where it has one.
\<close>

datatype flash_msg =
    OwnMaterial          \<comment> \<open>add_to_cart of one's own material (SelfPurchaseError)\<close>
  | AlreadyInCart
  | AddedToCart
  | RemovedFromCart
  | CartEmpty            \<comment> \<open>checkout with an empty cart (EmptyCartError)\<close>
  | OrderSuccessful
  | NoAccess             \<comment> \<open>download without access (AccessDeniedError)\<close>
  | OnlyPurchased        \<comment> \<open>review without a completed purchase (NotEntitledError)\<close>
  | AlreadyReviewed      \<comment> \<open>second review of a pair (DuplicateReviewError)\<close>
  | InvalidRating        \<comment> \<open>rating missing or outside 1..5 (InvalidRatingError)\<close>
  | ReviewAdded
  | FieldsRequired
  | PasswordMismatch
  | UsernameExists
  | EmailExists
  | Registered
  | FileRequired
  | NoFileSelected
  | FileTypeNotAllowed
  | MaterialAdded
  | NoEditPermission
  | MaterialUpdated
  | NoDeletePermission
  | MaterialDeleted

datatype response =
    LoginRedirect                  \<comment> \<open>login_required without a loaded user\<close>
  | Abort404                       \<comment> \<open>get_or_404\<close>
  | Abort500                       \<comment> \<open>an exception, handled by internal_error\<close>
  | Rendered                       \<comment> \<open>render_template\<close>
  | Redirected                     \<comment> \<open>redirect without a flash\<close>
  | Flashed flash_msg              \<comment> \<open>flash, then redirect or render\<close>
  | OrderPlaced nat                \<comment> \<open>flash OrderSuccessful, redirect to order_detail of the id\<close>
  | SendFile string string         \<comment> \<open>send_from_directory: stored path and download name\<close>

datatype error = IntegrityError | AttributeError | OperationalError

section \<open>Cart (main.py, add_to_cart and remove_from_cart)\<close>

definition add_to_cart :: "db \<Rightarrow> nat \<Rightarrow> nat \<Rightarrow> response \<times> db" where
  "add_to_cart s u mid =
     (case get_user s u of
        None \<Rightarrow> (LoginRedirect, s)
      | Some current_user \<Rightarrow>
          (case get_material s mid of
             None \<Rightarrow> (Abort404, s)
           | Some material \<Rightarrow>
               if seller_id material = u_id current_user then (Flashed OwnMaterial, s)
               else if material \<in> set (cart s u) then (Flashed AlreadyInCart, s)
               else (Flashed AddedToCart, s\<lparr>cart_items := cart_items s @ [(u, mid)]\<rparr>)))"

definition remove_from_cart :: "db \<Rightarrow> nat \<Rightarrow> nat \<Rightarrow> response \<times> db" where
  "remove_from_cart s u mid =
     (case get_user s u of
        None \<Rightarrow> (LoginRedirect, s)
      | Some current_user \<Rightarrow>
          (case get_material s mid of
             None \<Rightarrow> (Abort404, s)
           | Some material \<Rightarrow>
               if material \<in> set (cart s u)
               then (Flashed RemovedFromCart,
                     s\<lparr>cart_items := filter (\<lambda>row. row \<noteq> (u, mid)) (cart_items s)\<rparr>)
               else (Redirected, s)))"

section \<open>Registration and selling (main.py, register, sell, edit_material, delete_material)\<close>

text \<open>
  \<open>register\<close>: \<open>cur\<close> is the user id of the session, if any. Password hashing is not
  modelled; an empty string stands for a missing form field.
\<close>

definition register ::
  "db \<Rightarrow> nat option \<Rightarrow> http_method \<Rightarrow> string \<Rightarrow> string \<Rightarrow> string \<Rightarrow> string \<Rightarrow> response \<times> db" where
  "register s cur meth uname mail password confirm_password =
     (if (case cur of None \<Rightarrow> False | Some u \<Rightarrow> get_user s u \<noteq> None) then (Redirected, s)
      else if meth = POST then
        (if uname = [] \<or> mail = [] \<or> password = [] \<or> confirm_password = []
         then (Flashed FieldsRequired, s)
         else if password \<noteq> confirm_password then (Flashed PasswordMismatch, s)
         else if find (\<lambda>x. username x = uname) (users s) \<noteq> None
         then (Flashed UsernameExists, s)
         else if find (\<lambda>x. email x = mail) (users s) \<noteq> None then (Flashed EmailExists, s)
         else (Flashed Registered,
               s\<lparr>users := users s @
                  [\<lparr>u_id = next_id (map u_id (users s)), username = uname, email = mail,
                    is_seller = False, is_admin = False, total_earnings = 0\<rparr>]\<rparr>))
      else (Rendered, s))"

text \<open>\<open>str.lower\<close> and \<open>str.upper\<close> on ASCII characters\<close>

definition lower_char :: "char \<Rightarrow> char" where
  "lower_char c = (let n = (of_char c :: nat) in
     if 65 \<le> n \<and> n \<le> 90 then char_of (n + 32) else c)"

definition upper_char :: "char \<Rightarrow> char" where
  "upper_char c = (let n = (of_char c :: nat) in
     if 97 \<le> n \<and> n \<le> 122 then char_of (n - 32) else c)"

definition ALLOWED_EXTENSIONS :: "string list" where
  "ALLOWED_EXTENSIONS = [''pdf'', ''zip'', ''pptx'', ''docx'', ''txt'', ''png'', ''jpg'', ''jpeg'']"

text \<open>\<open>filename.rsplit('.', 1)[1].lower()\<close>, for a filename that contains a dot\<close>

definition extension :: "string \<Rightarrow> string" where
  "extension filename = map lower_char (rev (takeWhile (\<lambda>c. c \<noteq> CHR ''.'') (rev filename)))"

definition allowed_file :: "string \<Rightarrow> bool" where
  "allowed_file filename \<longleftrightarrow>
     CHR ''.'' \<in> set filename \<and> extension filename \<in> set ALLOWED_EXTENSIONS"

text \<open>
  \<open>sell\<close>: \<open>file\<close> is the filename of the uploaded part (\<open>None\<close> when the request has no
  such part), \<open>uuid_hex\<close> the value of \<open>uuid.uuid4().hex\<close>. A form field that is missing
  or does not parse is \<open>None\<close>; the columns title, description and price are NOT NULL, so
  the commit then raises and internal_error rolls back.
\<close>

definition sell ::
  "string \<Rightarrow> db \<Rightarrow> nat \<Rightarrow> http_method \<Rightarrow> string option \<Rightarrow> string option \<Rightarrow> real option \<Rightarrow>
   string option \<Rightarrow> response \<times> db" where
  "sell uuid_hex s u meth title_f description_f price_f file =
     (case get_user s u of
        None \<Rightarrow> (LoginRedirect, s)
      | Some current_user \<Rightarrow>
          if meth = POST then
            (case file of
               None \<Rightarrow> (Flashed FileRequired, s)
             | Some filename \<Rightarrow>
                 if filename = [] then (Flashed NoFileSelected, s)
                 else if allowed_file filename then
                   (case (title_f, description_f, price_f) of
                      (Some t, Some d, Some p) \<Rightarrow>
                        (Flashed MaterialAdded,
                         s\<lparr>materials := materials s @
                              [\<lparr>m_id = next_id (map m_id (materials s)), title = t,
                                description = d, price = p,
                                file_path = uuid_hex @ ''.'' @ extension filename,
                                file_type = extension filename, views = 0, downloads = 0,
                                rating = 0, rating_count = 0, is_active = True,
                                seller_id = u_id current_user\<rparr>],
                            users := map (\<lambda>x. if u_id x = u then x\<lparr>is_seller := True\<rparr> else x)
                                       (users s)\<rparr>)
                    | _ \<Rightarrow> (Abort500, s))
                 else (Flashed FileTypeNotAllowed, s))
          else (Rendered, s))"

definition edit_material ::
  "db \<Rightarrow> nat \<Rightarrow> http_method \<Rightarrow> nat \<Rightarrow> string option \<Rightarrow> string option \<Rightarrow> real option \<Rightarrow>
   response \<times> db" where
  "edit_material s u meth mid title_f description_f price_f =
     (case get_user s u of
        None \<Rightarrow> (LoginRedirect, s)
      | Some current_user \<Rightarrow>
          (case get_material s mid of
             None \<Rightarrow> (Abort404, s)
           | Some material \<Rightarrow>
               if seller_id material \<noteq> u_id current_user \<and> \<not> is_admin current_user
               then (Flashed NoEditPermission, s)
               else if meth = POST then
                 (case (title_f, description_f, price_f) of
                    (Some t, Some d, Some p) \<Rightarrow>
                      (Flashed MaterialUpdated,
                       s\<lparr>materials :=
                           map (\<lambda>m. if m_id m = mid
                                     then m\<lparr>title := t, description := d, price := p\<rparr> else m)
                             (materials s)\<rparr>)
                  | _ \<Rightarrow> (Abort500, s))
               else (Rendered, s)))"

definition delete_material :: "db \<Rightarrow> nat \<Rightarrow> nat \<Rightarrow> response \<times> db" where
  "delete_material s u mid =
     (case get_user s u of
        None \<Rightarrow> (LoginRedirect, s)
      | Some current_user \<Rightarrow>
          (case get_material s mid of
             None \<Rightarrow> (Abort404, s)
           | Some material \<Rightarrow>
               if seller_id material \<noteq> u_id current_user \<and> \<not> is_admin current_user
               then (Flashed NoDeletePermission, s)
               else (Flashed MaterialDeleted,
                     s\<lparr>materials :=
                         map (\<lambda>m. if m_id m = mid then m\<lparr>is_active := False\<rparr> else m)
                           (materials s)\<rparr>)))"

definition material_detail :: "db \<Rightarrow> nat \<Rightarrow> response \<times> db" where
  "material_detail s mid =
     (case get_material s mid of
        None \<Rightarrow> (Abort404, s)
      | Some material \<Rightarrow>
          (Rendered,
           s\<lparr>materials := map (\<lambda>m. if m_id m = mid then m\<lparr>views := views m + 1\<rparr> else m)
                             (materials s)\<rparr>))"

section \<open>Checkout (main.py, checkout and internal_error)\<close>

text \<open>
  The SQLAlchemy session: what is committed and what the open transaction sees.
  Only \<open>persisted\<close> is visible after the request.
\<close>

record session =
  persisted :: db
  pending :: db

definition commit :: "session \<Rightarrow> session" where
  "commit ss = ss\<lparr>persisted := pending ss\<rparr>"

definition rollback :: "session \<Rightarrow> session" where
  "rollback ss = ss\<lparr>pending := persisted ss\<rparr>"

text \<open>Python's \<open>sum\<close>: addition from the left, starting at 0.\<close>

definition py_sum :: "real list \<Rightarrow> real" where
  "py_sum xs = foldl (+) 0 xs"

text \<open>\<open>f"SS-{uuid.uuid4().hex[:8].upper()}"\<close>\<close>

definition gen_order_number :: "string \<Rightarrow> string" where
  "gen_order_number uuid_hex = ''SS-'' @ map upper_char (take 8 uuid_hex)"

text \<open>
  The loop over the cart. \<open>fail_at = Some k\<close> makes the store raise at its \<open>k\<close>-th
  access of the request: access 0 is the flush of the Order, access \<open>k\<close> for
  \<open>1 \<le> k \<le> n\<close> is the load of \<open>material.seller\<close> in the \<open>k\<close>-th iteration (after that
  iteration's OrderItem is added and the downloads counter incremented), and access
  \<open>n + 1\<close> is the commit. A material whose seller does not load makes
  \<open>material.seller.total_earnings\<close> raise AttributeError.
\<close>

fun checkout_items ::
  "nat option \<Rightarrow> nat \<Rightarrow> nat \<Rightarrow> study_material list \<Rightarrow> db \<Rightarrow> error option \<times> db" where
  "checkout_items fail_at k oid [] w = (None, w)"
| "checkout_items fail_at k oid (material # rest) w =
     (let w1 = w\<lparr>order_items := order_items w @
                  [\<lparr>oi_id = next_id (map oi_id (order_items w)), oi_price = price material,
                    order_id = oid, material_id = m_id material, download_count = 0,
                    last_download = None\<rparr>]\<rparr>;
          w2 = w1\<lparr>materials :=
                    map (\<lambda>m. if m_id m = m_id material then m\<lparr>downloads := downloads m + 1\<rparr>
                              else m) (materials w1)\<rparr>
      in if fail_at = Some k then (Some OperationalError, w2)
         else (case get_user w2 (seller_id material) of
                 None \<Rightarrow> (Some AttributeError, w2)
               | Some seller \<Rightarrow>
                   checkout_items fail_at (Suc k) oid rest
                     (w2\<lparr>users :=
                          map (\<lambda>x. if u_id x = seller_id material
                                    then x\<lparr>total_earnings :=
                                             total_earnings x + price material * 0.8\<rparr>
                                    else x) (users w2)\<rparr>)))"

text \<open>
  The body of the POST branch, run in a session. The result is the exception raised, if
  any, the id of the Order, and the session as the body leaves it.
\<close>

definition checkout_post ::
  "string \<Rightarrow> nat \<Rightarrow> nat option \<Rightarrow> nat \<Rightarrow> session \<Rightarrow> error option \<times> nat \<times> session" where
  "checkout_post uuid_hex now fail_at u ss =
     (let w = pending ss;
          items = cart w u;
          number = gen_order_number uuid_hex;
          total = py_sum (map price items);
          oid = next_id (map o_id (orders w));
          order = \<lparr>o_id = oid, order_number = number, total_amount = total,
                   status = ''completed'', payment_method = ''card'',
                   completed_at = Some now, buyer_id = u\<rparr>
      in if fail_at = Some 0 then (Some OperationalError, oid, ss)
         else if number \<in> set (map order_number (orders w)) then (Some IntegrityError, oid, ss)
         else
           (case checkout_items fail_at 1 oid items (w\<lparr>orders := orders w @ [order]\<rparr>) of
              (Some e, w2) \<Rightarrow> (Some e, oid, ss\<lparr>pending := w2\<rparr>)
            | (None, w2) \<Rightarrow>
                (let w3 = w2\<lparr>cart_items :=
                               filter (\<lambda>row. \<not> (fst row = u \<and> get_material w (snd row) \<noteq> None))
                                 (cart_items w2)\<rparr>
                 in if fail_at = Some (Suc (length items))
                    then (Some OperationalError, oid, ss\<lparr>pending := w3\<rparr>)
                    else (None, oid, commit (ss\<lparr>pending := w3\<rparr>)))))"

definition checkout ::
  "string \<Rightarrow> nat \<Rightarrow> nat option \<Rightarrow> db \<Rightarrow> nat \<Rightarrow> http_method \<Rightarrow> response \<times> db" where
  "checkout uuid_hex now fail_at s u meth =
     (case get_user s u of
        None \<Rightarrow> (LoginRedirect, s)
      | Some current_user \<Rightarrow>
          if cart s u = [] then (Flashed CartEmpty, s)
          else if meth = POST then
            (case checkout_post uuid_hex now fail_at u \<lparr>persisted = s, pending = s\<rparr> of
               (Some e, oid, ss) \<Rightarrow> (Abort500, persisted (rollback ss))
             | (None, oid, ss) \<Rightarrow> (OrderPlaced oid, persisted ss))
          else (Rendered, s))"

section \<open>Downloads and reviews (main.py, download_material and add_review)\<close>

text \<open>
  \<open>OrderItem.query.join(Order).filter(Order.buyer_id == u, OrderItem.material_id == mid,
  Order.status == 'completed').first()\<close>
\<close>

definition purchased_item :: "db \<Rightarrow> nat \<Rightarrow> nat \<Rightarrow> order_item option" where
  "purchased_item s u mid =
     find (\<lambda>oi. list_ex (\<lambda>ord. o_id ord = order_id oi \<and> buyer_id ord = u \<and>
                              material_id oi = mid \<and> status ord = ''completed'') (orders s))
       (order_items s)"

definition download_material :: "nat \<Rightarrow> db \<Rightarrow> nat \<Rightarrow> nat \<Rightarrow> response \<times> db" where
  "download_material now s u mid =
     (case get_user s u of
        None \<Rightarrow> (LoginRedirect, s)
      | Some current_user \<Rightarrow>
          (case get_material s mid of
             None \<Rightarrow> (Abort404, s)
           | Some material \<Rightarrow>
               (let served = SendFile (file_path material)
                               (title material @ ''.'' @ file_type material)
                in if seller_id material = u_id current_user then (served, s)
                   else (case purchased_item s u mid of
                           None \<Rightarrow> (Flashed NoAccess, s)
                         | Some item \<Rightarrow>
                             (served,
                              s\<lparr>order_items :=
                                  map (\<lambda>x. if oi_id x = oi_id item
                                            then x\<lparr>download_count := download_count x + 1,
                                                   last_download := Some now\<rparr>
                                            else x) (order_items s)\<rparr>)))))"

text \<open>\<open>StudyMaterial.update_rating\<close>; \<open>self.reviews.all()\<close> are the reviews of the material's id.\<close>

definition material_reviews :: "db \<Rightarrow> nat \<Rightarrow> review list" where
  "material_reviews s mid = filter (\<lambda>r. r_material_id r = mid) (reviews s)"

definition update_rating :: "db \<Rightarrow> study_material \<Rightarrow> study_material" where
  "update_rating s self =
     (let rs = material_reviews s (m_id self)
      in if rs \<noteq> []
         then self\<lparr>rating := real_of_int (foldl (+) 0 (map r_rating rs)) / real (length rs),
                   rating_count := int (length rs)\<rparr>
         else self\<lparr>rating := 0, rating_count := 0\<rparr>)"

definition add_review ::
  "db \<Rightarrow> nat \<Rightarrow> nat \<Rightarrow> int option \<Rightarrow> string option \<Rightarrow> response \<times> db" where
  "add_review s u mid rating_f comment_f =
     (case get_user s u of
        None \<Rightarrow> (LoginRedirect, s)
      | Some current_user \<Rightarrow>
          (case get_material s mid of
             None \<Rightarrow> (Abort404, s)
           | Some material \<Rightarrow>
               (case purchased_item s u mid of
                  None \<Rightarrow> (Flashed OnlyPurchased, s)
                | Some item \<Rightarrow>
                    (case find (\<lambda>r. r_material_id r = mid \<and> reviewer_id r = u) (reviews s) of
                       Some existing_review \<Rightarrow> (Flashed AlreadyReviewed, s)
                     | None \<Rightarrow>
                         (case rating_f of
                            None \<Rightarrow> (Flashed InvalidRating, s)
                          | Some r \<Rightarrow>
                              if r = 0 \<or> r < 1 \<or> r > 5 then (Flashed InvalidRating, s)
                              else
                                (let s1 = s\<lparr>reviews := reviews s @
                                             [\<lparr>r_id = next_id (map r_id (reviews s)),
                                               r_rating = r, comment = comment_f,
                                               r_material_id = mid, reviewer_id = u,
                                               r_seller_id = seller_id material\<rparr>]\<rparr>
                                 in (Flashed ReviewAdded,
                                     s1\<lparr>materials :=
                                          map (\<lambda>m. if m_id m = mid then update_rating s1 m
                                                    else m) (materials s1)\<rparr>)))))))"

section \<open>The routes as one transition function\<close>

text \<open>
  The routes that write to the modelled tables. login, logout, edit_profile,
  toggle_favorite and the read-only pages change none of the modelled columns.
\<close>

datatype request =
    Register "nat option" http_method string string string string
  | Sell string nat http_method "string option" "string option" "real option" "string option"
  | EditMaterial nat http_method nat "string option" "string option" "real option"
  | DeleteMaterial nat nat
  | MaterialDetail nat
  | AddToCart nat nat
  | RemoveFromCart nat nat
  | Checkout string nat "nat option" nat http_method
  | Download nat nat nat
  | AddReview nat nat "int option" "string option"

fun handle :: "request \<Rightarrow> db \<Rightarrow> response \<times> db" where
  "handle (Register cur meth a b c d) s = register s cur meth a b c d"
| "handle (Sell uuid_hex u meth t d p f) s = sell uuid_hex s u meth t d p f"
| "handle (EditMaterial u meth mid t d p) s = edit_material s u meth mid t d p"
| "handle (DeleteMaterial u mid) s = delete_material s u mid"
| "handle (MaterialDetail mid) s = material_detail s mid"
| "handle (AddToCart u mid) s = add_to_cart s u mid"
| "handle (RemoveFromCart u mid) s = remove_from_cart s u mid"
| "handle (Checkout uuid_hex now fail_at u meth) s = checkout uuid_hex now fail_at s u meth"
| "handle (Download now u mid) s = download_material now s u mid"
| "handle (AddReview u mid r c) s = add_review s u mid r c"

text \<open>The state after a sequence of requests.\<close>

definition run :: "request list \<Rightarrow> db \<Rightarrow> db" where
  "run reqs s = foldl (\<lambda>st req. snd (handle req st)) s reqs"

text \<open>
  The value of the local variable \<open>has_access\<close> of download_material at its last test.
\<close>

definition has_access :: "db \<Rightarrow> nat \<Rightarrow> nat \<Rightarrow> study_material \<Rightarrow> bool" where
  "has_access s u mid material =
     (if seller_id material = u then True else purchased_item s u mid \<noteq> None)"

text \<open>The relationship \<open>Order.items\<close>\<close>

definition items_of_order :: "db \<Rightarrow> nat \<Rightarrow> order_item list" where
  "items_of_order s oid = filter (\<lambda>i. order_id i = oid) (order_items s)"

section \<open>The properties of the specification, in its words\<close>

text \<open>
  A completed Order belonging to the user contains an OrderItem referencing the material.
\<close>

definition completed_purchase_spec :: "db \<Rightarrow> nat \<Rightarrow> nat \<Rightarrow> bool" where
  "completed_purchase_spec s u mid \<longleftrightarrow>
     (\<exists>ord \<in> set (orders s). buyer_id ord = u \<and> status ord = ''completed'' \<and>
        (\<exists>i \<in> set (order_items s). order_id i = o_id ord \<and> material_id i = mid))"

definition has_access_spec :: "db \<Rightarrow> nat \<Rightarrow> study_material \<Rightarrow> bool" where
  "has_access_spec s u m \<longleftrightarrow> u = seller_id m \<or> completed_purchase_spec s u (m_id m)"

text \<open>The arithmetic mean of the ratings of a list of reviews, 0 when there is none.\<close>

definition mean_rating :: "review list \<Rightarrow> real" where
  "mean_rating rs =
     (if rs = [] then 0 else real_of_int (sum_list (map r_rating rs)) / real (length rs))"

definition rating_invariant :: "db \<Rightarrow> bool" where
  "rating_invariant s \<longleftrightarrow>
     (\<forall>m \<in> set (materials s).
        rating m = mean_rating (material_reviews s (m_id m)) \<and>
        rating_count m = int (length (material_reviews s (m_id m))))"

definition one_review_per_pair :: "db \<Rightarrow> bool" where
  "one_review_per_pair s \<longleftrightarrow> distinct (map (\<lambda>r. (r_material_id r, reviewer_id r)) (reviews s))"

text \<open>The requests to add_review.\<close>

fun is_add_review :: "request \<Rightarrow> bool" where
  "is_add_review (AddReview u mid r c) = True"
| "is_add_review _ = False"

text \<open>The requests to edit_material.\<close>

fun is_edit_material :: "request \<Rightarrow> bool" where
  "is_edit_material (EditMaterial u meth mid t d p) = True"
| "is_edit_material _ = False"

section \<open>Integrity constraints of the schema\<close>

text \<open>
  The foreign keys \<open>order_item.order_id\<close> and \<open>review.material_id\<close> and the primary key
  of \<open>cart_items\<close>. They hold in the empty database and every route keeps them.
\<close>

definition order_items_fk :: "db \<Rightarrow> bool" where
  "order_items_fk s \<longleftrightarrow> (\<forall>i \<in> set (order_items s). order_id i \<in> set (map o_id (orders s)))"

definition reviews_fk :: "db \<Rightarrow> bool" where
  "reviews_fk s \<longleftrightarrow> (\<forall>r \<in> set (reviews s). r_material_id r \<in> set (map m_id (materials s)))"

definition cart_items_pk :: "db \<Rightarrow> bool" where
  "cart_items_pk s \<longleftrightarrow> distinct (cart_items s)"

section \<open>A worked scenario\<close>

text \<open>
  User 1 registers and uploads a material priced 10, user 2 registers, puts it in the
  cart, checks out and reviews it.
\<close>

definition demo_uuid :: string where
  "demo_uuid = ''deadbeef000040008000000000000000''"

definition demo_shop :: db where
  "demo_shop = run
     [Register None POST ''alice'' ''alice@example.org'' ''pw'' ''pw'',
      Sell demo_uuid 1 POST (Some ''Notes'') (Some ''Lecture notes'') (Some 10)
        (Some ''notes.pdf''),
      Register None POST ''bob'' ''bob@example.org'' ''pw'' ''pw''] empty_db"

text \<open>The rows those requests create.\<close>

definition demo_alice :: user where
  "demo_alice = \<lparr>u_id = 1, username = ''alice'', email = ''alice@example.org'',
     is_seller = True, is_admin = False, total_earnings = 0\<rparr>"

definition demo_bob :: user where
  "demo_bob = \<lparr>u_id = 2, username = ''bob'', email = ''bob@example.org'',
     is_seller = False, is_admin = False, total_earnings = 0\<rparr>"

definition demo_notes :: study_material where
  "demo_notes = \<lparr>m_id = 1, title = ''Notes'', description = ''Lecture notes'', price = 10,
     file_path = ''deadbeef000040008000000000000000.pdf'', file_type = ''pdf'', views = 0,
     downloads = 0, rating = 0, rating_count = 0, is_active = True, seller_id = 1\<rparr>"

definition demo_cart :: db where
  "demo_cart = run [AddToCart 2 1] demo_shop"

definition demo_bought :: db where
  "demo_bought = run [Checkout demo_uuid 7 None 2 POST] demo_cart"

definition demo_reviewed :: db where
  "demo_reviewed = run [AddReview 2 1 (Some 4) None] demo_bought"



text \<open>
  After the purchase user 2 puts the material in the cart again; add_to_cart does not
  look at earlier orders.
\<close>

definition demo_again :: db where
  "demo_again = run [AddToCart 2 1] demo_bought"



section \<open>Lookups, identifiers and sums\<close>

lemma find_id_map:
  assumes "\<And>x. key (f x) = key x"
  shows "find (\<lambda>x. key x = i) (map f xs) = map_option f (find (\<lambda>x. key x = i) xs)"
  using assms by (induction xs) auto

lemma get_user_id: "get_user s i = Some x \<Longrightarrow> u_id x = i"
  by (auto simp: get_user_def find_Some_iff)

lemma get_material_id: "get_material s i = Some m \<Longrightarrow> m_id m = i"
  by (auto simp: get_material_def find_Some_iff)

lemma le_foldr_max: "(x::nat) \<in> set xs \<Longrightarrow> x \<le> foldr max xs 0"
  by (induction xs) auto

lemma next_id_fresh: "next_id xs \<notin> set xs"
  using le_foldr_max[of "next_id xs" xs] by (auto simp: next_id_def)

lemma py_sum_eq: "py_sum xs = sum_list xs"
proof -
  have "foldl (+) a xs = a + sum_list xs" for a :: real
    by (induction xs arbitrary: a) auto
  then show ?thesis by (simp add: py_sum_def)
qed

section \<open>What a checkout writes\<close>

lemma checkout_items_tables:
  "checkout_items fail_at k oid ms w = (e, w') \<Longrightarrow>
     orders w' = orders w \<and> cart_items w' = cart_items w \<and> reviews w' = reviews w"
  by (induction ms arbitrary: w k) (auto simp: Let_def split: if_splits option.splits)

lemma checkout_items_order_items:
  "checkout_items fail_at k oid ms w = (None, w') \<Longrightarrow>
     \<exists>new. order_items w' = order_items w @ new \<and>
       map (\<lambda>i. (order_id i, material_id i, oi_price i)) new = map (\<lambda>m. (oid, m_id m, price m)) ms"
proof (induction ms arbitrary: w k)
  case Nil
  then show ?case by simp
next
  case (Cons m ms)
  from Cons.prems obtain w2 where
    rec: "checkout_items fail_at (Suc k) oid ms w2 = (None, w')" and
    w2: "order_items w2 = order_items w @
           [\<lparr>oi_id = next_id (map oi_id (order_items w)), oi_price = price m,
             order_id = oid, material_id = m_id m, download_count = 0, last_download = None\<rparr>]"
    by (auto simp: Let_def split: if_splits option.splits)
  from Cons.IH[OF rec] obtain new where
    "order_items w' = order_items w2 @ new"
    "map (\<lambda>i. (order_id i, material_id i, oi_price i)) new = map (\<lambda>m. (oid, m_id m, price m)) ms"
    by blast
  then show ?case using w2 by simp
qed

lemma checkout_items_users:
  "checkout_items fail_at k oid ms w = (None, w') \<Longrightarrow>
     users w' = map (\<lambda>x. x\<lparr>total_earnings := total_earnings x +
                      sum_list (map (\<lambda>m. price m * 0.8) (filter (\<lambda>m. seller_id m = u_id x) ms))\<rparr>)
                  (users w)"
proof (induction ms arbitrary: w k)
  case Nil
  then show ?case by (simp add: map_idI)
next
  case (Cons m ms)
  define w2 where "w2 = w\<lparr>order_items := order_items w @
           [\<lparr>oi_id = next_id (map oi_id (order_items w)), oi_price = price m,
             order_id = oid, material_id = m_id m, download_count = 0, last_download = None\<rparr>],
       materials := map (\<lambda>x. if m_id x = m_id m then x\<lparr>downloads := downloads x + 1\<rparr> else x) (materials w),
       users := map (\<lambda>x. if u_id x = seller_id m
                                    then x\<lparr>total_earnings := total_earnings x + price m * 0.8\<rparr>
                                    else x) (users w)\<rparr>"
  from Cons.prems have rec: "checkout_items fail_at (Suc k) oid ms w2 = (None, w')"
    by (auto simp: Let_def w2_def split: if_splits option.splits)
  have "users w2 = map (\<lambda>x. if u_id x = seller_id m
                                    then x\<lparr>total_earnings := total_earnings x + price m * 0.8\<rparr>
                                    else x) (users w)"
    by (simp add: w2_def)
  with Cons.IH[OF rec] show ?case
    by (auto simp: algebra_simps)
qed

lemma checkout_items_materials:
  "checkout_items fail_at k oid ms w = (None, w') \<Longrightarrow>
     materials w' = map (\<lambda>x. x\<lparr>downloads := downloads x +
                      int (length (filter (\<lambda>m. m_id m = m_id x) ms))\<rparr>) (materials w)"
proof (induction ms arbitrary: w k)
  case Nil
  then show ?case by (simp add: map_idI)
next
  case (Cons m ms)
  define w2 where "w2 = w\<lparr>order_items := order_items w @
           [\<lparr>oi_id = next_id (map oi_id (order_items w)), oi_price = price m,
             order_id = oid, material_id = m_id m, download_count = 0, last_download = None\<rparr>],
       materials := map (\<lambda>x. if m_id x = m_id m then x\<lparr>downloads := downloads x + 1\<rparr> else x) (materials w),
       users := map (\<lambda>x. if u_id x = seller_id m
                                    then x\<lparr>total_earnings := total_earnings x + price m * 0.8\<rparr>
                                    else x) (users w)\<rparr>"
  from Cons.prems have rec: "checkout_items fail_at (Suc k) oid ms w2 = (None, w')"
    by (auto simp: Let_def w2_def split: if_splits option.splits)
  have "materials w2 = map (\<lambda>x. if m_id x = m_id m then x\<lparr>downloads := downloads x + 1\<rparr> else x) (materials w)"
    by (simp add: w2_def)
  with Cons.IH[OF rec] show ?case
    by (auto simp: algebra_simps)
qed

lemma cart_after_clear:
  assumes ids: "\<And>i. get_material s i = None \<Longrightarrow> get_material s2 i = None"
  shows "List.map_filter (\<lambda>row. if fst row = u then get_material s2 (snd row) else None)
           (filter (\<lambda>row. \<not> (fst row = u \<and> get_material s (snd row) \<noteq> None)) rows) = []"
  using ids by (induction rows) (auto simp: List.map_filter_simps split: option.splits)

lemma checkout_placed:
  assumes "checkout uuid_hex now fail_at s u meth = (OrderPlaced oid, s')"
  shows "meth = POST" "get_user s u \<noteq> None" "cart s u \<noteq> []"
    "gen_order_number uuid_hex \<notin> set (map order_number (orders s))"
    "oid = next_id (map o_id (orders s))"
    "orders s' = orders s @ [\<lparr>o_id = oid, order_number = gen_order_number uuid_hex,
        total_amount = py_sum (map price (cart s u)), status = ''completed'',
        payment_method = ''card'', completed_at = Some now, buyer_id = u\<rparr>]"
    "\<exists>new. order_items s' = order_items s @ new \<and>
       map (\<lambda>i. (order_id i, material_id i, oi_price i)) new =
         map (\<lambda>m. (oid, m_id m, price m)) (cart s u)"
    "users s' = map (\<lambda>x. x\<lparr>total_earnings := total_earnings x +
         sum_list (map (\<lambda>m. price m * 0.8) (filter (\<lambda>m. seller_id m = u_id x) (cart s u)))\<rparr>)
       (users s)"
    "materials s' = map (\<lambda>x. x\<lparr>downloads := downloads x +
         int (length (filter (\<lambda>m. m_id m = m_id x) (cart s u)))\<rparr>) (materials s)"
    "cart_items s' = filter (\<lambda>row. \<not> (fst row = u \<and> get_material s (snd row) \<noteq> None)) (cart_items s)"
    "reviews s' = reviews s"
    "cart s' u = []"
proof -
  let ?ord = "\<lparr>o_id = next_id (map o_id (orders s)), order_number = gen_order_number uuid_hex,
        total_amount = py_sum (map price (cart s u)), status = ''completed'',
        payment_method = ''card'', completed_at = Some now, buyer_id = u\<rparr>"
  let ?w1 = "s\<lparr>orders := orders s @ [?ord]\<rparr>"
  from assms show m: "meth = POST" and g: "get_user s u \<noteq> None" and c: "cart s u \<noteq> []"
    by (auto simp: checkout_def split: option.splits if_splits)
  from assms m g c obtain ss where
    post: "checkout_post uuid_hex now fail_at u \<lparr>persisted = s, pending = s\<rparr> = (None, oid, ss)"
    and s': "s' = persisted ss"
    by (auto simp: checkout_def split: option.splits if_splits prod.splits)
  from post show fresh: "gen_order_number uuid_hex \<notin> set (map order_number (orders s))"
    and oid: "oid = next_id (map o_id (orders s))"
    by (auto simp: checkout_post_def Let_def split: if_splits prod.splits option.splits)
  from post fresh obtain w2 where
    loop: "checkout_items fail_at 1 (next_id (map o_id (orders s))) (cart s u) ?w1 = (None, w2)"
    and ss: "s' = w2\<lparr>cart_items := filter (\<lambda>row. \<not> (fst row = u \<and> get_material s (snd row) \<noteq> None)) (cart_items w2)\<rparr>"
    unfolding s'
    by (auto simp: checkout_post_def Let_def commit_def split: if_splits prod.splits option.splits)
  from checkout_items_tables[OF loop] ss oid
  show "orders s' = orders s @ [\<lparr>o_id = oid, order_number = gen_order_number uuid_hex,
        total_amount = py_sum (map price (cart s u)), status = ''completed'',
        payment_method = ''card'', completed_at = Some now, buyer_id = u\<rparr>]"
    and ci: "cart_items s' = filter (\<lambda>row. \<not> (fst row = u \<and> get_material s (snd row) \<noteq> None)) (cart_items s)"
    and "reviews s' = reviews s"
    by simp_all
  from checkout_items_order_items[OF loop] ss oid
  show "\<exists>new. order_items s' = order_items s @ new \<and>
       map (\<lambda>i. (order_id i, material_id i, oi_price i)) new =
         map (\<lambda>m. (oid, m_id m, price m)) (cart s u)"
    by simp
  from checkout_items_users[OF loop] ss
  show "users s' = map (\<lambda>x. x\<lparr>total_earnings := total_earnings x +
         sum_list (map (\<lambda>m. price m * 0.8) (filter (\<lambda>m. seller_id m = u_id x) (cart s u)))\<rparr>)
       (users s)"
    by simp
  from checkout_items_materials[OF loop] ss
  show mats: "materials s' = map (\<lambda>x. x\<lparr>downloads := downloads x +
         int (length (filter (\<lambda>m. m_id m = m_id x) (cart s u)))\<rparr>) (materials s)"
    by simp
  have "get_material s i = None \<Longrightarrow> get_material s' i = None" for i
    unfolding mats get_material_def by (subst find_id_map) auto
  from cart_after_clear[of s s' u "cart_items s", OF this]
  show "cart s' u = []"
    unfolding cart_def ci by simp
qed

section \<open>Cart\<close>

lemma cart_count:
  assumes "get_material s mid = Some m"
  shows "length (filter (\<lambda>x. m_id x = mid) (cart s u)) = count_list (cart_items s) (u, mid)"
proof -
  have "length (filter (\<lambda>x. m_id x = mid) (List.map_filter
     (\<lambda>row. if fst row = u then get_material s (snd row) else None) rows)) =
     count_list rows (u, mid)" for rows
  proof (induction rows)
    case Nil
    show ?case by (simp add: List.map_filter_simps)
  next
    case (Cons r rows)
    then show ?case using assms
      by (cases r) (auto simp: List.map_filter_simps dest: get_material_id split: option.splits)
  qed
  then show ?thesis by (simp add: cart_def)
qed

lemma in_cart_iff:
  assumes "get_material s mid = Some m"
  shows "m \<in> set (cart s u) \<longleftrightarrow> (u, mid) \<in> set (cart_items s)"
proof -
  have "m \<in> set (List.map_filter
     (\<lambda>row. if fst row = u then get_material s (snd row) else None) rows) \<longleftrightarrow>
     (u, mid) \<in> set rows" for rows
  proof (induction rows)
    case Nil
    show ?case by (simp add: List.map_filter_simps)
  next
    case (Cons r rows)
    then show ?case using assms
      by (cases r) (auto simp: List.map_filter_simps dest: get_material_id split: option.splits)
  qed
  then show ?thesis by (simp add: cart_def)
qed

lemma get_material_cart_items [simp]:
  "get_material (s\<lparr>cart_items := c\<rparr>) = get_material s"
  "get_user (s\<lparr>cart_items := c\<rparr>) = get_user s"
  by (simp_all add: get_material_def get_user_def fun_eq_iff)

lemma distinct_count_list:
  "distinct xs \<Longrightarrow> x \<in> set xs \<Longrightarrow> count_list xs x = 1"
  by (induction xs) auto

lemma add_to_cart_result:
  assumes "get_user s u = Some cu" and "get_material s mid = Some m" and "seller_id m \<noteq> u"
  shows "add_to_cart s u mid =
     (if (u, mid) \<in> set (cart_items s) then (Flashed AlreadyInCart, s)
      else (Flashed AddedToCart, s\<lparr>cart_items := cart_items s @ [(u, mid)]\<rparr>))"
  using assms get_user_id[OF assms(1)] by (simp add: add_to_cart_def in_cart_iff)

text \<open>
  C9. add_to_cart is idempotent. For a logged-in user \<open>u\<close> and an existing material
  \<open>mid\<close> that \<open>u\<close> does not sell, in a database where \<open>cart_items\<close> respects its
  primary key: after two calls in succession the second call has reported that the
  material is already in the cart and has changed nothing, and the cart of \<open>u\<close> holds
  exactly one material with that id.
\<close>

theorem add_to_cart_idempotent:
  assumes "get_user s u = Some cu" and "get_material s mid = Some m"
    and "seller_id m \<noteq> u" and "cart_items_pk s"
  shows "fst (add_to_cart (snd (add_to_cart s u mid)) u mid) = Flashed AlreadyInCart \<and>
         snd (add_to_cart (snd (add_to_cart s u mid)) u mid) = snd (add_to_cart s u mid) \<and>
         length (filter (\<lambda>x. m_id x = mid)
           (cart (snd (add_to_cart (snd (add_to_cart s u mid)) u mid)) u)) = 1"
proof -
  define s1 where "s1 = snd (add_to_cart s u mid)"
  have s1: "s1 = (if (u, mid) \<in> set (cart_items s) then s
                  else s\<lparr>cart_items := cart_items s @ [(u, mid)]\<rparr>)"
    unfolding s1_def add_to_cart_result[OF assms(1-3)] by simp
  have gu: "get_user s1 u = Some cu" and gm: "get_material s1 mid = Some m"
    using assms by (simp_all add: s1)
  have mem: "(u, mid) \<in> set (cart_items s1)" by (simp add: s1)
  have second: "add_to_cart s1 u mid = (Flashed AlreadyInCart, s1)"
    using mem by (simp add: add_to_cart_result[OF gu gm assms(3)])
  have "distinct (cart_items s1)"
    using assms(4) by (simp add: s1 cart_items_pk_def)
  then have "count_list (cart_items s1) (u, mid) = 1"
    using mem by (rule distinct_count_list)
  then have "length (filter (\<lambda>x. m_id x = mid) (cart s1 u)) = 1"
    by (simp add: cart_count[OF gm])
  with second show ?thesis unfolding s1_def by simp
qed

theorem add_to_cart_idempotent_witness:
  "fst (add_to_cart (snd (add_to_cart demo_shop 2 1)) 2 1) = Flashed AlreadyInCart \<and>
   snd (add_to_cart (snd (add_to_cart demo_shop 2 1)) 2 1) = snd (add_to_cart demo_shop 2 1) \<and>
   length (filter (\<lambda>x. m_id x = 1)
     (cart (snd (add_to_cart (snd (add_to_cart demo_shop 2 1)) 2 1)) 2)) = 1"
proof -
  have 1: "get_user demo_shop 2 = Some \<lparr>u_id = 2, username = ''bob'', email = ''bob@example.org'',
        is_seller = False, is_admin = False, total_earnings = 0\<rparr>" by code_simp
  have 2: "get_material demo_shop 1 = Some \<lparr>m_id = 1, title = ''Notes'', description = ''Lecture notes'',
          price = 10, file_path = ''deadbeef000040008000000000000000.pdf'',
          file_type = ''pdf'', views = 0, downloads = 0, rating = 0,
          rating_count = 0, is_active = True, seller_id = 1\<rparr>" by code_simp
  have 3: "cart_items_pk demo_shop" by code_simp
  show ?thesis
    by (rule add_to_cart_idempotent[OF 1 2 _ 3]) simp
qed

section \<open>Entitlement\<close>

lemma purchased_item_iff: "purchased_item s u mid \<noteq> None \<longleftrightarrow> completed_purchase_spec s u mid"
proof
  assume "purchased_item s u mid \<noteq> None"
  then obtain i ord where io: "i \<in> set (order_items s)" "ord \<in> set (orders s)"
    and "o_id ord = order_id i" "buyer_id ord = u" "material_id i = mid"
      "status ord = ''completed''"
    by (auto simp: purchased_item_def find_None_iff list_ex_iff)
  then have "buyer_id ord = u \<and> status ord = ''completed'' \<and>
     (\<exists>i \<in> set (order_items s). order_id i = o_id ord \<and> material_id i = mid)"
    by (intro conjI bexI[of _ i]) simp_all
  with io(2) show "completed_purchase_spec s u mid"
    unfolding completed_purchase_spec_def by (rule bexI[rotated])
next
  assume "completed_purchase_spec s u mid"
  then obtain ord i where io: "ord \<in> set (orders s)" "i \<in> set (order_items s)"
    and "buyer_id ord = u" "status ord = ''completed''" "order_id i = o_id ord"
      "material_id i = mid"
    unfolding completed_purchase_spec_def by blast
  then have "\<exists>ord \<in> set (orders s). o_id ord = order_id i \<and> buyer_id ord = u \<and>
     material_id i = mid \<and> status ord = ''completed''"
    by (intro bexI[of _ ord]) simp_all
  with io(2) show "purchased_item s u mid \<noteq> None"
    unfolding purchased_item_def find_None_iff list_ex_iff by blast
qed

lemma purchased_item_None: "purchased_item s u mid = None \<longleftrightarrow> \<not> completed_purchase_spec s u mid"
  using purchased_item_iff[of s u mid] by blast

lemma download_material_result:
  assumes "get_user s u = Some cu" and "get_material s mid = Some m"
  shows "fst (download_material now s u mid) =
     (if has_access s u mid m then SendFile (file_path m) (title m @ ''.'' @ file_type m)
      else Flashed NoAccess)"
  using assms get_user_id[OF assms(1)]
  by (auto simp: download_material_def has_access_def Let_def split: option.splits)

lemma download_material_denied:
  assumes "get_user s u = Some cu" and "get_material s mid = Some m" and "\<not> has_access s u mid m"
  shows "download_material now s u mid = (Flashed NoAccess, s)"
  using assms get_user_id[OF assms(1)]
  by (auto simp: download_material_def has_access_def Let_def split: option.splits if_splits)

lemma has_access_iff:
  assumes "get_material s mid = Some m"
  shows "has_access s u mid m \<longleftrightarrow> has_access_spec s u m"
  using get_material_id[OF assms] purchased_item_iff[of s u mid]
  by (auto simp: has_access_def has_access_spec_def)

text \<open>
  C3. For a logged-in user \<open>u\<close> and an existing material \<open>m\<close>, the access test of
  download_material is true exactly when \<open>u\<close> is the seller of \<open>m\<close> or a completed
  Order of \<open>u\<close> contains an OrderItem referencing \<open>m\<close>; the file is served exactly in
  that case; the seller always has access; and without access the download is refused
  (NoAccess, the AccessDeniedError of the specification) and nothing is written.
\<close>

theorem download_access:
  assumes "get_user s u = Some cu" and "get_material s mid = Some m"
  shows "has_access s u mid m = has_access_spec s u m \<and>
         (fst (download_material now s u mid) =
            SendFile (file_path m) (title m @ ''.'' @ file_type m)) = has_access_spec s u m \<and>
         (seller_id m = u \<longrightarrow> has_access s u mid m) \<and>
         (\<not> has_access_spec s u m \<longrightarrow> download_material now s u mid = (Flashed NoAccess, s))"
  using download_material_result[OF assms, of now] download_material_denied[OF assms, of now]
    has_access_iff[OF assms(2), of u]
  by (auto simp: has_access_def)

theorem download_access_witness:
  "has_access demo_bought 2 1 (demo_notes\<lparr>downloads := 1\<rparr>) \<and>
   fst (download_material 9 demo_bought 2 1) =
     SendFile ''deadbeef000040008000000000000000.pdf'' ''Notes.pdf'' \<and>
   has_access demo_shop 1 1 demo_notes \<and>
   \<not> has_access_spec demo_shop 2 demo_notes \<and>
   download_material 9 demo_shop 2 1 = (Flashed NoAccess, demo_shop)"
proof -
  have u2: "get_user demo_shop 2 = Some demo_bob" by code_simp
  have u1: "get_user demo_shop 1 = Some demo_alice" by code_simp
  have m1: "get_material demo_shop 1 = Some demo_notes" by code_simp
  have b2: "get_user demo_bought 2 = Some demo_bob" by code_simp
  have bm: "get_material demo_bought 1 = Some (demo_notes\<lparr>downloads := 1\<rparr>)" by code_simp
  have sp: "has_access_spec demo_bought 2 (demo_notes\<lparr>downloads := 1\<rparr>)" by code_simp
  have nsp: "\<not> has_access_spec demo_shop 2 demo_notes" by code_simp
  have sl: "seller_id demo_notes = 1" by (simp add: demo_notes_def)
  have f: "file_path (demo_notes\<lparr>downloads := 1\<rparr>) = ''deadbeef000040008000000000000000.pdf''"
    "title (demo_notes\<lparr>downloads := 1\<rparr>) @ ''.'' @ file_type (demo_notes\<lparr>downloads := 1\<rparr>) = ''Notes.pdf''"
    by (simp_all add: demo_notes_def)
  from download_access[OF b2 bm, of 9] sp download_access[OF u1 m1, of 9] sl
    download_access[OF u2 m1, of 9] nsp
  show ?thesis unfolding f by blast
qed

section \<open>Reviews\<close>

lemma add_review_not_purchased:
  assumes "get_user s u = Some cu" and "get_material s mid = Some m"
    and "\<not> completed_purchase_spec s u mid"
  shows "add_review s u mid r c = (Flashed OnlyPurchased, s)"
proof -
  have "purchased_item s u mid = None"
    using assms(3) by (simp add: purchased_item_None)
  then show ?thesis using assms(1,2) by (simp add: add_review_def)
qed

lemma add_review_purchased:
  assumes "get_user s u = Some cu" and "get_material s mid = Some m"
    and "completed_purchase_spec s u mid"
  shows "fst (add_review s u mid r c) \<noteq> Flashed OnlyPurchased"
  using assms purchased_item_iff[of s u mid]
  by (auto simp: add_review_def Let_def split: option.splits)

text \<open>
  C5. For a logged-in user and an existing material, add_review ends with OnlyPurchased
  (the NotEntitledError of the specification) exactly when the user has no completed
  purchase of the material, and it then writes nothing. Being the seller does not help:
  a seller without a completed purchase of the own material is refused although
  download_material grants that seller access.
\<close>

theorem add_review_purchase_only:
  assumes "get_user s u = Some cu" and "get_material s mid = Some m"
  shows "(fst (add_review s u mid r c) = Flashed OnlyPurchased) =
           (\<not> completed_purchase_spec s u mid) \<and>
         (\<not> completed_purchase_spec s u mid \<longrightarrow>
            add_review s u mid r c = (Flashed OnlyPurchased, s)) \<and>
         (seller_id m = u \<and> \<not> completed_purchase_spec s u mid \<longrightarrow>
            add_review s u mid r c = (Flashed OnlyPurchased, s) \<and> has_access s u mid m)"
  using add_review_not_purchased[OF assms, of r c] add_review_purchased[OF assms, of r c]
  by (auto simp: has_access_def)

theorem add_review_purchase_only_witness:
  "\<not> completed_purchase_spec demo_bought 1 1 \<and>
   add_review demo_bought 1 1 (Some 5) None = (Flashed OnlyPurchased, demo_bought) \<and>
   has_access demo_bought 1 1 (demo_notes\<lparr>downloads := 1\<rparr>) \<and>
   completed_purchase_spec demo_bought 2 1 \<and>
   fst (add_review demo_bought 2 1 (Some 5) None) \<noteq> Flashed OnlyPurchased"
proof -
  have u1: "get_user demo_bought 1 = Some (demo_alice\<lparr>total_earnings := 8\<rparr>)" by code_simp
  have u2: "get_user demo_bought 2 = Some demo_bob" by code_simp
  have bm: "get_material demo_bought 1 = Some (demo_notes\<lparr>downloads := 1\<rparr>)" by code_simp
  have n1: "\<not> completed_purchase_spec demo_bought 1 1" by code_simp
  have p2: "completed_purchase_spec demo_bought 2 1" by code_simp
  have sl: "seller_id (demo_notes\<lparr>downloads := 1\<rparr>) = 1" by (simp add: demo_notes_def)
  from add_review_purchase_only[OF u1 bm, of "Some 5" None]
    add_review_purchase_only[OF u2 bm, of "Some 5" None] n1 p2 sl
  show ?thesis by blast
qed

lemma add_review_duplicate:
  assumes "get_user s u = Some cu" and "get_material s mid = Some m"
    and "completed_purchase_spec s u mid"
    and "\<exists>rv \<in> set (reviews s). r_material_id rv = mid \<and> reviewer_id rv = u"
  shows "add_review s u mid r c = (Flashed AlreadyReviewed, s)"
proof -
  from assms(3) obtain item where "purchased_item s u mid = Some item"
    using purchased_item_iff[of s u mid] by auto
  moreover from assms(4) obtain rv where
    "find (\<lambda>r. r_material_id r = mid \<and> reviewer_id r = u) (reviews s) = Some rv"
    by (cases "find (\<lambda>r. r_material_id r = mid \<and> reviewer_id r = u) (reviews s)")
      (auto simp: find_None_iff)
  ultimately show ?thesis using assms(1,2) by (simp add: add_review_def)
qed

lemma add_review_reviews:
  "reviews (snd (add_review s u mid r c)) = reviews s \<or>
   (find (\<lambda>r. r_material_id r = mid \<and> reviewer_id r = u) (reviews s) = None \<and>
    (\<exists>rv. reviews (snd (add_review s u mid r c)) = reviews s @ [rv] \<and>
       r_material_id rv = mid \<and> reviewer_id rv = u))"
  by (auto simp: add_review_def Let_def split: option.splits)

lemma add_review_one_per_pair:
  assumes "one_review_per_pair s"
  shows "one_review_per_pair (snd (add_review s u mid r c))"
proof -
  let ?s' = "snd (add_review s u mid r c)"
  from add_review_reviews[of s u mid r c] show ?thesis
  proof
    assume "reviews ?s' = reviews s"
    then show ?thesis using assms by (simp add: one_review_per_pair_def)
  next
    assume "find (\<lambda>r. r_material_id r = mid \<and> reviewer_id r = u) (reviews s) = None \<and>
      (\<exists>rv. reviews ?s' = reviews s @ [rv] \<and> r_material_id rv = mid \<and> reviewer_id rv = u)"
    then obtain rv where new: "reviews ?s' = reviews s @ [rv]"
      and rv: "r_material_id rv = mid" "reviewer_id rv = u"
      and none: "\<forall>x \<in> set (reviews s). \<not> (r_material_id x = mid \<and> reviewer_id x = u)"
      by (auto simp: find_None_iff)
    from none have "(mid, u) \<notin> set (map (\<lambda>r. (r_material_id r, reviewer_id r)) (reviews s))"
      by auto
    then show ?thesis using assms rv unfolding one_review_per_pair_def new by simp
  qed
qed

section \<open>Which tables a route writes\<close>

lemma checkout_failed:
  assumes "checkout uuid_hex now fail_at s u meth = (r, s')"
  shows "(\<exists>oid. r = OrderPlaced oid) \<or> s' = s"
proof -
  have "persisted ss = s"
    if "checkout_post uuid_hex now fail_at u \<lparr>persisted = s, pending = s\<rparr> = (Some e, oid, ss)"
    for e oid ss
    using that
    by (auto simp: checkout_post_def Let_def split: if_splits prod.splits option.splits)
  then show ?thesis using assms
    by (auto simp: checkout_def rollback_def split: option.splits if_splits prod.splits)
qed

lemma register_tables:
  "materials (snd (register s cur meth a b c d)) = materials s"
  "cart_items (snd (register s cur meth a b c d)) = cart_items s"
  "orders (snd (register s cur meth a b c d)) = orders s"
  "order_items (snd (register s cur meth a b c d)) = order_items s"
  "reviews (snd (register s cur meth a b c d)) = reviews s"
  by (simp_all add: register_def)

lemma sell_tables:
  "cart_items (snd (sell uuid_hex s u meth t d p f)) = cart_items s"
  "orders (snd (sell uuid_hex s u meth t d p f)) = orders s"
  "order_items (snd (sell uuid_hex s u meth t d p f)) = order_items s"
  "reviews (snd (sell uuid_hex s u meth t d p f)) = reviews s"
  by (simp_all add: sell_def split: option.splits)

lemma edit_material_tables:
  "users (snd (edit_material s u meth mid t d p)) = users s"
  "cart_items (snd (edit_material s u meth mid t d p)) = cart_items s"
  "orders (snd (edit_material s u meth mid t d p)) = orders s"
  "order_items (snd (edit_material s u meth mid t d p)) = order_items s"
  "reviews (snd (edit_material s u meth mid t d p)) = reviews s"
  by (simp_all add: edit_material_def split: option.splits)

lemma delete_material_tables:
  "users (snd (delete_material s u mid)) = users s"
  "cart_items (snd (delete_material s u mid)) = cart_items s"
  "orders (snd (delete_material s u mid)) = orders s"
  "order_items (snd (delete_material s u mid)) = order_items s"
  "reviews (snd (delete_material s u mid)) = reviews s"
  by (simp_all add: delete_material_def split: option.splits)

lemma material_detail_tables:
  "users (snd (material_detail s mid)) = users s"
  "cart_items (snd (material_detail s mid)) = cart_items s"
  "orders (snd (material_detail s mid)) = orders s"
  "order_items (snd (material_detail s mid)) = order_items s"
  "reviews (snd (material_detail s mid)) = reviews s"
  by (simp_all add: material_detail_def split: option.splits)

lemma add_to_cart_tables:
  "users (snd (add_to_cart s u mid)) = users s"
  "materials (snd (add_to_cart s u mid)) = materials s"
  "orders (snd (add_to_cart s u mid)) = orders s"
  "order_items (snd (add_to_cart s u mid)) = order_items s"
  "reviews (snd (add_to_cart s u mid)) = reviews s"
  by (simp_all add: add_to_cart_def split: option.splits)

lemma remove_from_cart_tables:
  "users (snd (remove_from_cart s u mid)) = users s"
  "materials (snd (remove_from_cart s u mid)) = materials s"
  "orders (snd (remove_from_cart s u mid)) = orders s"
  "order_items (snd (remove_from_cart s u mid)) = order_items s"
  "reviews (snd (remove_from_cart s u mid)) = reviews s"
  by (simp_all add: remove_from_cart_def split: option.splits)

lemma download_material_tables:
  "users (snd (download_material now s u mid)) = users s"
  "materials (snd (download_material now s u mid)) = materials s"
  "cart_items (snd (download_material now s u mid)) = cart_items s"
  "orders (snd (download_material now s u mid)) = orders s"
  "reviews (snd (download_material now s u mid)) = reviews s"
  by (simp_all add: download_material_def Let_def split: option.splits)

lemma add_review_tables:
  "users (snd (add_review s u mid r c)) = users s"
  "cart_items (snd (add_review s u mid r c)) = cart_items s"
  "orders (snd (add_review s u mid r c)) = orders s"
  "order_items (snd (add_review s u mid r c)) = order_items s"
  by (simp_all add: add_review_def Let_def split: option.splits)

lemma checkout_reviews: "reviews (snd (checkout uuid_hex now fail_at s u meth)) = reviews s"
proof (cases "checkout uuid_hex now fail_at s u meth")
  case (Pair r s')
  from checkout_failed[OF Pair] show ?thesis
  proof
    assume "\<exists>oid. r = OrderPlaced oid"
    then show ?thesis using checkout_placed(11)[of uuid_hex now fail_at s u meth _ s'] Pair
      by auto
  next
    assume "s' = s"
    then show ?thesis using Pair by simp
  qed
qed

lemma run_append: "run (xs @ ys) s = run ys (run xs s)"
  by (simp add: run_def)

lemma run_Nil: "run [] s = s"
  by (simp add: run_def)

lemma run_Cons: "run (x # xs) s = run xs (snd (handle x s))"
  by (simp add: run_def)

lemma run_invariant:
  assumes "P s" and "\<And>req st. P st \<Longrightarrow> P (snd (handle req st))"
  shows "P (run reqs s)"
  using assms(1)
proof (induction reqs arbitrary: s)
  case Nil
  then show ?case by (simp add: run_Nil)
next
  case (Cons x xs)
  then show ?case using assms(2) by (simp add: run_Cons)
qed

lemma handle_one_review_per_pair:
  assumes "one_review_per_pair s"
  shows "one_review_per_pair (snd (handle req s))"
proof (cases req)
  case (AddReview u mid r c)
  then show ?thesis using add_review_one_per_pair[OF assms] by simp
qed (use assms in \<open>simp_all add: one_review_per_pair_def register_tables sell_tables
      edit_material_tables delete_material_tables material_detail_tables add_to_cart_tables
      remove_from_cart_tables download_material_tables checkout_reviews\<close>)

text \<open>
  C6. For a logged-in user with a completed purchase of an existing material and a
  Review by that user for that material already stored, add_review ends with
  AlreadyReviewed (the DuplicateReviewError of the specification) and leaves the
  database as it was, so no second Review of the pair is created. Every route keeps
  the property that no two Reviews share their (material, reviewer) pair, and it holds
  in every state reached from the empty database.
\<close>

theorem add_review_rejects_duplicate:
  assumes "get_user s u = Some cu" and "get_material s mid = Some m"
    and "completed_purchase_spec s u mid"
    and "\<exists>rv \<in> set (reviews s). r_material_id rv = mid \<and> reviewer_id rv = u"
  shows "add_review s u mid r c = (Flashed AlreadyReviewed, s) \<and>
         (one_review_per_pair s \<longrightarrow> one_review_per_pair (snd (handle req s))) \<and>
         one_review_per_pair (run reqs empty_db)"
proof (intro conjI impI)
  show "add_review s u mid r c = (Flashed AlreadyReviewed, s)"
    using assms by (rule add_review_duplicate)
  show "one_review_per_pair (snd (handle req s))" if "one_review_per_pair s"
    using that by (rule handle_one_review_per_pair)
  show "one_review_per_pair (run reqs empty_db)"
    by (rule run_invariant) (simp_all add: one_review_per_pair_def empty_db_def
        handle_one_review_per_pair[unfolded one_review_per_pair_def])
qed

theorem add_review_rejects_duplicate_witness:
  "add_review demo_reviewed 2 1 (Some 2) None = (Flashed AlreadyReviewed, demo_reviewed) \<and>
   length (reviews demo_reviewed) = 1 \<and>
   one_review_per_pair (snd (handle (AddReview 2 1 (Some 2) None) demo_reviewed))"
proof -
  have u2: "get_user demo_reviewed 2 = Some demo_bob" by code_simp
  have m1: "get_material demo_reviewed 1 =
      Some (demo_notes\<lparr>downloads := 1, rating := 4, rating_count := 1\<rparr>)" by code_simp
  have p: "completed_purchase_spec demo_reviewed 2 1" by code_simp
  have r: "\<exists>rv \<in> set (reviews demo_reviewed). r_material_id rv = 1 \<and> reviewer_id rv = 2"
    by code_simp
  have one: "one_review_per_pair demo_reviewed" by code_simp
  have len: "length (reviews demo_reviewed) = 1" by code_simp
  from add_review_rejects_duplicate[OF u2 m1 p r, of "Some 2" None "AddReview 2 1 (Some 2) None"]
    one len
  show ?thesis by blast
qed

section \<open>Ratings\<close>

lemma foldl_add_int: "foldl (+) a xs = a + sum_list xs" for a :: int
  by (induction xs arbitrary: a) auto

lemma update_rating_mean:
  "rating (update_rating s m) = mean_rating (material_reviews s (m_id m))"
  "rating_count (update_rating s m) = int (length (material_reviews s (m_id m)))"
  "m_id (update_rating s m) = m_id m"
  by (simp_all add: update_rating_def mean_rating_def Let_def foldl_add_int)

lemma material_reviews_materials [simp]:
  "material_reviews (s\<lparr>materials := ms\<rparr>) = material_reviews s"
  by (simp add: material_reviews_def fun_eq_iff)

lemma add_review_added:
  assumes "add_review s u mid r c = (Flashed ReviewAdded, s')"
  shows "\<exists>rv. reviews s' = reviews s @ [rv] \<and> r_material_id rv = mid \<and> reviewer_id rv = u \<and>
           r_rating rv \<in> {1..5} \<and> Some (r_rating rv) = r \<and>
           materials s' = map (\<lambda>m. if m_id m = mid then update_rating s' m else m) (materials s)"
    and "get_material s mid \<noteq> None"
proof -
  from assms obtain cu m item x where
    facts: "get_user s u = Some cu" "get_material s mid = Some m"
      "purchased_item s u mid = Some item"
      "find (\<lambda>r. r_material_id r = mid \<and> reviewer_id r = u) (reviews s) = None"
      "r = Some x" "1 \<le> x" "x \<le> 5"
    by (simp add: add_review_def split: option.splits if_splits)
  then show "get_material s mid \<noteq> None" by simp
  define rv where "rv = \<lparr>r_id = next_id (map r_id (reviews s)), r_rating = x, comment = c,
     r_material_id = mid, reviewer_id = u, r_seller_id = seller_id m\<rparr>"
  define s1 where "s1 = s\<lparr>reviews := reviews s @ [rv]\<rparr>"
  have s': "s' = s1\<lparr>materials := map (\<lambda>m. if m_id m = mid then update_rating s1 m else m)
                                   (materials s1)\<rparr>"
    using assms facts unfolding s1_def rv_def by (auto simp: add_review_def Let_def)
  have eq: "update_rating s' = update_rating s1"
    by (simp add: s' update_rating_def fun_eq_iff)
  have "reviews s' = reviews s @ [rv]" by (simp add: s' s1_def)
  moreover have "materials s' = map (\<lambda>m. if m_id m = mid then update_rating s' m else m) (materials s)"
    unfolding eq by (simp add: s' s1_def)
  ultimately show "\<exists>rv. reviews s' = reviews s @ [rv] \<and> r_material_id rv = mid \<and> reviewer_id rv = u \<and>
           r_rating rv \<in> {1..5} \<and> Some (r_rating rv) = r \<and>
           materials s' = map (\<lambda>m. if m_id m = mid then update_rating s' m else m) (materials s)"
    using facts by (intro exI[of _ rv]) (simp add: rv_def)
qed

lemma add_review_rating:
  assumes "add_review s u mid r c = (Flashed ReviewAdded, s')"
  shows "\<forall>m \<in> set (materials s'). m_id m = mid \<longrightarrow>
           rating m = mean_rating (material_reviews s' mid) \<and>
           rating_count m = int (length (material_reviews s' mid))"
    and "\<exists>m. get_material s' mid = Some m"
proof -
  define f where "f = (\<lambda>m. if m_id m = mid then update_rating s' m else m)"
  from add_review_added(1)[OF assms] have mats: "materials s' = map f (materials s)"
    unfolding f_def by blast
  have f_id: "m_id (f x) = m_id x" for x
    by (simp add: f_def update_rating_mean)
  show "\<forall>m \<in> set (materials s'). m_id m = mid \<longrightarrow>
           rating m = mean_rating (material_reviews s' mid) \<and>
           rating_count m = int (length (material_reviews s' mid))"
  proof (intro ballI impI)
    fix m assume "m \<in> set (materials s')" and id: "m_id m = mid"
    then obtain x where m: "m = f x"
      by (subst (asm) mats) auto
    with id f_id[of x] have "m_id x = mid" by simp
    with m have "m = update_rating s' x" by (simp add: f_def)
    then show "rating m = mean_rating (material_reviews s' mid) \<and>
           rating_count m = int (length (material_reviews s' mid))"
      using \<open>m_id x = mid\<close> by (simp add: update_rating_mean)
  qed
  have "find (\<lambda>m. m_id m = mid) (map f (materials s)) =
      map_option f (find (\<lambda>m. m_id m = mid) (materials s))"
    by (rule find_id_map[of m_id f]) (rule f_id)
  then have "get_material s' mid = map_option f (get_material s mid)"
    by (simp add: get_material_def mats)
  with add_review_added(2)[OF assms] show "\<exists>m. get_material s' mid = Some m"
    by auto
qed

lemma add_review_unchanged:
  "fst (add_review s u mid r c) \<noteq> Flashed ReviewAdded \<Longrightarrow> snd (add_review s u mid r c) = s"
  by (simp add: add_review_def Let_def split: option.splits if_splits) blast

lemma add_review_rating_invariant:
  assumes "rating_invariant s"
  shows "rating_invariant (snd (add_review s u mid r c))"
proof (cases "fst (add_review s u mid r c) = Flashed ReviewAdded")
  case False
  then show ?thesis using assms by (simp add: add_review_unchanged)
next
  case True
  define s' where "s' = snd (add_review s u mid r c)"
  define f where "f = (\<lambda>m. if m_id m = mid then update_rating s' m else m)"
  have ar: "add_review s u mid r c = (Flashed ReviewAdded, s')"
    using True by (simp add: s'_def prod_eq_iff)
  from add_review_added(1)[OF ar] obtain rv where
    rv: "reviews s' = reviews s @ [rv]" "r_material_id rv = mid"
    and mats: "materials s' = map f (materials s)"
    unfolding f_def by blast
  have other: "material_reviews s' i = material_reviews s i" if "i \<noteq> mid" for i
    using that rv by (simp add: material_reviews_def)
  have "rating m = mean_rating (material_reviews s' (m_id m)) \<and>
        rating_count m = int (length (material_reviews s' (m_id m)))"
    if "m \<in> set (materials s')" for m
  proof (cases "m_id m = mid")
    case True
    with add_review_rating(1)[OF ar] that show ?thesis by simp
  next
    case False
    from that obtain x where x: "x \<in> set (materials s)" "m = f x"
      by (subst (asm) mats) auto
    with False have "m = x"
      by (simp add: f_def update_rating_mean split: if_splits)
    with x assms False show ?thesis
      by (simp add: rating_invariant_def other)
  qed
  then have "rating_invariant s'" by (simp add: rating_invariant_def)
  then show ?thesis by (simp add: s'_def)
qed

text \<open>A route that keeps the reviews and, row by row, the id and the rating columns.\<close>

lemma rating_frame:
  assumes "reviews s' = reviews s"
    and "map (\<lambda>m. (m_id m, rating m, rating_count m)) (materials s') =
         map (\<lambda>m. (m_id m, rating m, rating_count m)) (materials s)"
  shows "rating_invariant s \<Longrightarrow> rating_invariant s'"
    and "reviews_fk s \<Longrightarrow> reviews_fk s'"
proof -
  have mr: "material_reviews s' = material_reviews s"
    using assms(1) by (simp add: material_reviews_def fun_eq_iff)
  have inv: "rating_invariant t \<longleftrightarrow>
      (\<forall>(i, r, c) \<in> set (map (\<lambda>m. (m_id m, rating m, rating_count m)) (materials t)).
         r = mean_rating (material_reviews t i) \<and> c = int (length (material_reviews t i)))" for t
    by (auto simp: rating_invariant_def)
  show "rating_invariant s \<Longrightarrow> rating_invariant s'"
    unfolding inv[of s] inv[of s'] assms(2) mr .
  have ids: "map m_id (materials s') = map m_id (materials s)"
    using arg_cong[OF assms(2), of "map fst"] by (simp add: comp_def)
  show "reviews_fk s \<Longrightarrow> reviews_fk s'"
    unfolding reviews_fk_def ids assms(1) .
qed

lemma checkout_rating_columns:
  "map (\<lambda>m. (m_id m, rating m, rating_count m)) (materials (snd (checkout uuid_hex now fail_at s u meth))) =
   map (\<lambda>m. (m_id m, rating m, rating_count m)) (materials s)"
proof (cases "checkout uuid_hex now fail_at s u meth")
  case (Pair r s')
  from checkout_failed[OF Pair] show ?thesis
  proof
    assume "\<exists>oid. r = OrderPlaced oid"
    then obtain oid where "checkout uuid_hex now fail_at s u meth = (OrderPlaced oid, s')"
      using Pair by auto
    from checkout_placed(9)[OF this] show ?thesis
      by (simp add: Pair comp_def)
  next
    assume "s' = s"
    then show ?thesis using Pair by simp
  qed
qed

lemma sell_materials:
  "materials (snd (sell uuid_hex s u meth t d p f)) = materials s \<or>
   (\<exists>m. materials (snd (sell uuid_hex s u meth t d p f)) = materials s @ [m] \<and>
      m_id m = next_id (map m_id (materials s)) \<and> rating m = 0 \<and> rating_count m = 0)"
  by (simp add: sell_def split: option.splits)

lemma sell_rating:
  assumes "rating_invariant s" and "reviews_fk s"
  shows "rating_invariant (snd (sell uuid_hex s u meth t d p f))"
    and "reviews_fk (snd (sell uuid_hex s u meth t d p f))"
proof -
  let ?s' = "snd (sell uuid_hex s u meth t d p f)"
  have rv: "reviews ?s' = reviews s" by (rule sell_tables)
  have mr: "material_reviews ?s' = material_reviews s"
    using rv by (simp add: material_reviews_def fun_eq_iff)
  have none: "material_reviews s (next_id (map m_id (materials s))) = []"
  proof -
    have "r_material_id r \<noteq> next_id (map m_id (materials s))" if "r \<in> set (reviews s)" for r
      using assms(2) that next_id_fresh[of "map m_id (materials s)"]
      unfolding reviews_fk_def by metis
    then show ?thesis by (simp add: material_reviews_def filter_empty_conv)
  qed
  from sell_materials[of uuid_hex s u meth t d p f]
  show "rating_invariant ?s'"
    using assms(1) none by (auto simp: rating_invariant_def mr mean_rating_def)
  from sell_materials[of uuid_hex s u meth t d p f]
  show "reviews_fk ?s'"
    using assms(2) by (auto simp: reviews_fk_def rv)
qed

lemma add_review_reviews_fk:
  assumes "reviews_fk s"
  shows "reviews_fk (snd (add_review s u mid r c))"
proof (cases "fst (add_review s u mid r c) = Flashed ReviewAdded")
  case False
  then show ?thesis using assms by (simp add: add_review_unchanged)
next
  case True
  define s' where "s' = snd (add_review s u mid r c)"
  define f where "f = (\<lambda>m. if m_id m = mid then update_rating s' m else m)"
  have ar: "add_review s u mid r c = (Flashed ReviewAdded, s')"
    using True by (simp add: s'_def prod_eq_iff)
  from add_review_added(1)[OF ar] obtain rv where
    rv: "reviews s' = reviews s @ [rv]" "r_material_id rv = mid"
    and mats: "materials s' = map f (materials s)"
    unfolding f_def by blast
  have ids: "map m_id (materials s') = map m_id (materials s)"
    by (simp add: mats f_def update_rating_mean cong: map_cong)
  from add_review_added(2)[OF ar] obtain m where "get_material s mid = Some m" by auto
  then have "mid \<in> set (map m_id (materials s))"
    by (auto simp: get_material_def find_Some_iff)
  then have "reviews_fk s'"
    using assms rv unfolding reviews_fk_def ids by auto
  then show ?thesis by (simp add: s'_def)
qed

lemma handle_rating_invariant:
  assumes "rating_invariant s \<and> reviews_fk s"
  shows "rating_invariant (snd (handle req s)) \<and> reviews_fk (snd (handle req s))"
proof (cases req)
  case (Register cur meth a b c d)
  then show ?thesis using assms
    rating_frame[of "snd (register s cur meth a b c d)" s]
    by (simp add: register_tables)
next
  case (Sell uuid_hex u meth t d p f)
  then show ?thesis using assms sell_rating[of s uuid_hex u meth t d p f] by simp
next
  case (EditMaterial u meth mid t d p)
  have "map (\<lambda>m. (m_id m, rating m, rating_count m)) (materials (snd (edit_material s u meth mid t d p))) =
        map (\<lambda>m. (m_id m, rating m, rating_count m)) (materials s)"
    by (simp add: edit_material_def comp_def split: option.splits cong: map_cong)
  then show ?thesis using assms EditMaterial
    rating_frame[of "snd (edit_material s u meth mid t d p)" s]
    by (simp add: edit_material_tables)
next
  case (DeleteMaterial u mid)
  have "map (\<lambda>m. (m_id m, rating m, rating_count m)) (materials (snd (delete_material s u mid))) =
        map (\<lambda>m. (m_id m, rating m, rating_count m)) (materials s)"
    by (simp add: delete_material_def comp_def split: option.splits cong: map_cong)
  then show ?thesis using assms DeleteMaterial
    rating_frame[of "snd (delete_material s u mid)" s]
    by (simp add: delete_material_tables)
next
  case (MaterialDetail mid)
  have "map (\<lambda>m. (m_id m, rating m, rating_count m)) (materials (snd (material_detail s mid))) =
        map (\<lambda>m. (m_id m, rating m, rating_count m)) (materials s)"
    by (simp add: material_detail_def comp_def split: option.splits cong: map_cong)
  then show ?thesis using assms MaterialDetail
    rating_frame[of "snd (material_detail s mid)" s]
    by (simp add: material_detail_tables)
next
  case (AddToCart u mid)
  then show ?thesis using assms rating_frame[of "snd (add_to_cart s u mid)" s]
    by (simp add: add_to_cart_tables)
next
  case (RemoveFromCart u mid)
  then show ?thesis using assms rating_frame[of "snd (remove_from_cart s u mid)" s]
    by (simp add: remove_from_cart_tables)
next
  case (Checkout uuid_hex now fail_at u meth)
  then show ?thesis using assms
    rating_frame[of "snd (checkout uuid_hex now fail_at s u meth)" s]
    by (simp add: checkout_reviews checkout_rating_columns)
next
  case (Download now u mid)
  then show ?thesis using assms rating_frame[of "snd (download_material now s u mid)" s]
    by (simp add: download_material_tables)
next
  case (AddReview u mid r c)
  then show ?thesis using assms add_review_rating_invariant[of s u mid r c]
    add_review_reviews_fk[of s u mid r c] by simp
qed

lemma run_add_reviews_rating:
  assumes "rating_invariant s" and "list_all is_add_review reqs"
  shows "rating_invariant (run reqs s)"
  using assms
proof (induction reqs arbitrary: s)
  case Nil
  then show ?case by (simp add: run_Nil)
next
  case (Cons req reqs)
  from Cons.prems(2) obtain u mid r c where req: "req = AddReview u mid r c"
    by (cases req) simp_all
  have "rating_invariant (snd (handle req s))"
    using Cons.prems(1) by (simp add: req add_review_rating_invariant)
  with Cons show ?case by (simp add: run_Cons)
qed

lemma reachable_rating_invariant:
  "rating_invariant (run reqs empty_db) \<and> reviews_fk (run reqs empty_db)"
proof (rule run_invariant[where P = "\<lambda>s. rating_invariant s \<and> reviews_fk s"])
  show "rating_invariant empty_db \<and> reviews_fk empty_db"
    by (simp add: rating_invariant_def reviews_fk_def empty_db_def)
  show "rating_invariant (snd (handle req st)) \<and> reviews_fk (snd (handle req st))"
    if "rating_invariant st \<and> reviews_fk st" for req st
    using that by (rule handle_rating_invariant)
qed

text \<open>
  C4. When add_review adds a Review to a material, the material is still stored and
  every row of it has as rating the arithmetic mean of the ratings of all Reviews of
  that material, the new one included, and as rating_count their number. The invariant
  that every material's rating is the mean of its Reviews (0 without Reviews) and its
  rating_count their number is kept by every add_review request, hence by every
  sequence of add_review requests, and it holds in every state reached from the empty
  database by any sequence of requests. Ratings are exact reals here; the source
  divides in floating point.
\<close>

theorem rating_is_mean_of_reviews:
  "(add_review s u mid r c = (Flashed ReviewAdded, s') \<longrightarrow>
      (\<exists>m. get_material s' mid = Some m) \<and>
      (\<forall>m \<in> set (materials s'). m_id m = mid \<longrightarrow>
         rating m = mean_rating (material_reviews s' mid) \<and>
         rating_count m = int (length (material_reviews s' mid)))) \<and>
   (rating_invariant s \<longrightarrow> rating_invariant (snd (add_review s u mid r c))) \<and>
   (rating_invariant s \<and> list_all is_add_review reqs \<longrightarrow> rating_invariant (run reqs s)) \<and>
   rating_invariant (run reqs' empty_db)"
proof (intro conjI impI)
  assume ar: "add_review s u mid r c = (Flashed ReviewAdded, s')"
  show "\<exists>m. get_material s' mid = Some m"
    using ar by (rule add_review_rating(2))
  show "\<forall>m \<in> set (materials s'). m_id m = mid \<longrightarrow>
         rating m = mean_rating (material_reviews s' mid) \<and>
         rating_count m = int (length (material_reviews s' mid))"
    using ar by (rule add_review_rating(1))
next
  assume "rating_invariant s"
  then show "rating_invariant (snd (add_review s u mid r c))"
    by (rule add_review_rating_invariant)
next
  assume "rating_invariant s \<and> list_all is_add_review reqs"
  then show "rating_invariant (run reqs s)"
    by (simp add: run_add_reviews_rating)
next
  show "rating_invariant (run reqs' empty_db)"
    using reachable_rating_invariant[of reqs'] by simp
qed

theorem rating_is_mean_of_reviews_witness:
  "add_review demo_bought 2 1 (Some 4) None = (Flashed ReviewAdded, demo_reviewed) \<and>
   map rating (materials demo_reviewed) = [4] \<and>
   map rating_count (materials demo_reviewed) = [1] \<and>
   mean_rating (material_reviews demo_reviewed 1) = 4 \<and>
   rating_invariant demo_bought \<and>
   rating_invariant (run [AddReview 2 1 (Some 4) None] demo_bought)"
proof -
  have ar: "add_review demo_bought 2 1 (Some 4) None = (Flashed ReviewAdded, demo_reviewed)"
    by code_simp
  have inv: "rating_invariant demo_bought" by code_simp
  have vals: "map rating (materials demo_reviewed) = [4]"
    "map rating_count (materials demo_reviewed) = [1]"
    "mean_rating (material_reviews demo_reviewed 1) = 4"
    by code_simp+
  have all: "list_all is_add_review [AddReview 2 1 (Some 4) None]" by simp
  have "rating_invariant (run [AddReview 2 1 (Some 4) None] demo_bought)"
    using rating_is_mean_of_reviews[of demo_bought 2 1 "Some 4" None demo_reviewed
      "[AddReview 2 1 (Some 4) None]" "[]"] inv all
    by (elim conjE) simp
  with inv ar vals show ?thesis by (intro conjI)
qed

section \<open>Orders are snapshots\<close>

lemma run_edits_orders:
  assumes "list_all is_edit_material reqs"
  shows "orders (run reqs s) = orders s \<and> order_items (run reqs s) = order_items s"
  using assms
proof (induction reqs arbitrary: s)
  case Nil
  then show ?case by (simp add: run_Nil)
next
  case (Cons req reqs)
  from Cons.prems obtain u meth mid t d p where req: "req = EditMaterial u meth mid t d p"
    by (cases req) simp_all
  with Cons show ?case by (simp add: run_Cons edit_material_tables)
qed

lemma checkout_items_of_order:
  assumes "checkout uuid_hex now fail_at s u meth = (OrderPlaced oid, s')"
    and "order_items_fk s"
  shows "map (\<lambda>i. (material_id i, oi_price i)) (items_of_order s' oid) =
         map (\<lambda>m. (m_id m, price m)) (cart s u)"
proof -
  from checkout_placed(7)[OF assms(1)] obtain new where
    new: "order_items s' = order_items s @ new"
    and proj: "map (\<lambda>i. (order_id i, material_id i, oi_price i)) new =
               map (\<lambda>m. (oid, m_id m, price m)) (cart s u)"
    by blast
  have oid: "oid \<notin> set (map o_id (orders s))"
    unfolding checkout_placed(5)[OF assms(1)] by (rule next_id_fresh)
  have "order_id i \<noteq> oid" if "i \<in> set (order_items s)" for i
    using assms(2) oid that by (auto simp: order_items_fk_def)
  then have old: "filter (\<lambda>i. order_id i = oid) (order_items s) = []"
    by (simp add: filter_empty_conv)
  have "map order_id new = map (\<lambda>m. oid) (cart s u)"
    using arg_cong[OF proj, of "map fst"] by (simp add: comp_def)
  then have "set (map order_id new) \<subseteq> {oid}"
    by (simp only: set_map) auto
  then have "\<forall>i \<in> set new. order_id i = oid"
    by auto
  then have newf: "filter (\<lambda>i. order_id i = oid) new = new"
    by (simp add: filter_id_conv)
  have "map (\<lambda>i. (material_id i, oi_price i)) new = map (\<lambda>m. (m_id m, price m)) (cart s u)"
    using arg_cong[OF proj, of "map snd"] by (simp add: comp_def)
  then show ?thesis by (simp add: items_of_order_def new old newf)
qed

text \<open>
  C1. A checkout that succeeds (it answers with the redirect to the new Order) was made
  with a non-empty cart and leaves the user's cart empty. It appends one Order, with
  status completed, whose total_amount is the sum of the prices the cart's materials
  have at that moment. In a database that respects the foreign key of
  \<open>order_item.order_id\<close>, the items of that Order are one per cart material, in the
  cart's order, each with that material's id and its price at that moment, so the sum
  of the item prices is the Order's total_amount. Later edit_material requests, which
  are what changes a price, leave all Orders and OrderItems as they are. Prices are
  exact reals here.
\<close>

theorem checkout_freezes_prices:
  assumes "checkout uuid_hex now fail_at s u meth = (OrderPlaced oid, s')"
    and "order_items_fk s"
    and "list_all is_edit_material later"
  shows "cart s u \<noteq> [] \<and> cart s' u = [] \<and>
         (\<exists>ord. orders s' = orders s @ [ord] \<and> o_id ord = oid \<and> buyer_id ord = u \<and>
            status ord = ''completed'' \<and>
            total_amount ord = py_sum (map price (cart s u)) \<and>
            total_amount ord = sum_list (map price (cart s u)) \<and>
            py_sum (map oi_price (items_of_order s' oid)) = total_amount ord) \<and>
         map (\<lambda>i. (material_id i, oi_price i)) (items_of_order s' oid) =
           map (\<lambda>m. (m_id m, price m)) (cart s u) \<and>
         orders (run later s') = orders s' \<and>
         order_items (run later s') = order_items s' \<and>
         items_of_order (run later s') oid = items_of_order s' oid"
proof -
  let ?ord = "\<lparr>o_id = oid, order_number = gen_order_number uuid_hex,
        total_amount = py_sum (map price (cart s u)), status = ''completed'',
        payment_method = ''card'', completed_at = Some now, buyer_id = u\<rparr>"
  have items: "map (\<lambda>i. (material_id i, oi_price i)) (items_of_order s' oid) =
      map (\<lambda>m. (m_id m, price m)) (cart s u)"
    using assms(1,2) by (rule checkout_items_of_order)
  have prices: "map oi_price (items_of_order s' oid) = map price (cart s u)"
    using arg_cong[OF items, of "map snd"] by (simp add: comp_def)
  have ord: "orders s' = orders s @ [?ord]"
    using assms(1) by (rule checkout_placed(6))
  have later: "orders (run later s') = orders s'" "order_items (run later s') = order_items s'"
    using run_edits_orders[OF assms(3), of s'] by simp_all
  have "\<exists>ord. orders s' = orders s @ [ord] \<and> o_id ord = oid \<and> buyer_id ord = u \<and>
            status ord = ''completed'' \<and>
            total_amount ord = py_sum (map price (cart s u)) \<and>
            total_amount ord = sum_list (map price (cart s u)) \<and>
            py_sum (map oi_price (items_of_order s' oid)) = total_amount ord"
    by (rule exI[of _ ?ord]) (simp add: ord prices py_sum_eq)
  moreover have "items_of_order (run later s') oid = items_of_order s' oid"
    by (simp add: items_of_order_def later)
  ultimately show ?thesis
    using checkout_placed(3,12)[OF assms(1)] items later by (intro conjI)
qed

theorem checkout_freezes_prices_witness:
  "checkout demo_uuid 7 None demo_cart 2 POST = (OrderPlaced 1, demo_bought) \<and>
   cart demo_bought 2 = [] \<and>
   map (\<lambda>i. (material_id i, oi_price i)) (items_of_order demo_bought 1) = [(1, 10)] \<and>
   map total_amount (orders demo_bought) = [10] \<and>
   map price (materials (run [EditMaterial 1 POST 1 (Some ''Notes'') (Some ''Lecture notes'')
      (Some 99)] demo_bought)) = [99] \<and>
   order_items (run [EditMaterial 1 POST 1 (Some ''Notes'') (Some ''Lecture notes'')
      (Some 99)] demo_bought) = order_items demo_bought \<and>
   orders (run [EditMaterial 1 POST 1 (Some ''Notes'') (Some ''Lecture notes'')
      (Some 99)] demo_bought) = orders demo_bought"
proof -
  let ?later = "[EditMaterial 1 POST 1 (Some ''Notes'') (Some ''Lecture notes'') (Some 99)]"
  have co: "checkout demo_uuid 7 None demo_cart 2 POST = (OrderPlaced 1, demo_bought)"
    by code_simp
  have fk: "order_items_fk demo_cart" by code_simp
  have ed: "list_all is_edit_material ?later" by simp
  have c: "map (\<lambda>m. (m_id m, price m)) (cart demo_cart 2) = [(1, 10)]" by code_simp
  have t: "map total_amount (orders demo_bought) = [10]" by code_simp
  have p: "map price (materials (run ?later demo_bought)) = [99]" by code_simp
  from checkout_freezes_prices[OF co fk ed] c t p co
  show ?thesis by (elim conjE) (simp only: simp_thms)
qed

section \<open>Atomicity of checkout\<close>


lemma checkout_post_persisted:
  assumes "checkout_post uuid_hex now fail_at u ss = (e, oid, ss')"
  shows "e \<noteq> None \<longrightarrow> persisted ss' = persisted ss"
    and "e = None \<longrightarrow> persisted ss' = pending ss'"
  using assms
  by (auto simp: checkout_post_def Let_def commit_def split: if_splits prod.splits option.splits)





section \<open>Order numbers\<close>

lemma checkout_collision:
  assumes "get_user s u = Some cu" and "cart s u \<noteq> []"
    and "gen_order_number uuid_hex \<in> set (map order_number (orders s))"
  shows "checkout uuid_hex now fail_at s u POST = (Abort500, s)"
proof -
  have "fst (checkout_post uuid_hex now fail_at u \<lparr>persisted = s, pending = s\<rparr>) \<noteq> None"
    using assms(3) by (simp add: checkout_post_def Let_def)
  then obtain e oid ss where
    post: "checkout_post uuid_hex now fail_at u \<lparr>persisted = s, pending = s\<rparr> = (Some e, oid, ss)"
    by (cases "checkout_post uuid_hex now fail_at u \<lparr>persisted = s, pending = s\<rparr>") auto
  from checkout_post_persisted(1)[OF post] have "persisted ss = s" by simp
  then show ?thesis using assms(1,2) post
    by (simp add: checkout_def rollback_def)
qed

text \<open>
  C7, as the claim states it, fails: the order number is \<open>SS-\<close> and the first eight
  hexadecimal digits of a random UUID, in upper case, and nothing keeps that from being
  the number of an existing Order. Here user 2 checks out a second time and the UUID
  drawn starts with the digits of the first checkout's: the generated number is the
  number of the existing Order, the unique constraint makes the flush raise, the
  request ends with the 500 page, and no Order is created.
\<close>

theorem checkout_order_number_collides:
  "gen_order_number demo_uuid = ''SS-DEADBEEF'' \<and>
   map order_number (orders demo_again) = [''SS-DEADBEEF''] \<and>
   length (cart demo_again 2) = 1 \<and>
   checkout demo_uuid 8 None demo_again 2 POST = (Abort500, demo_again)"
  by code_simp

text \<open>
  C7, amended. A checkout that creates an Order gives it a number that no Order had
  before, so order numbers stay pairwise distinct; a checkout by a logged-in user with
  a non-empty cart whose generated number is the number of an existing Order ends
  with the 500 page and changes nothing.
\<close>

theorem checkout_order_number_fresh:
  "(checkout uuid_hex now fail_at s u meth = (OrderPlaced oid, s') \<longrightarrow>
      (\<exists>ord. orders s' = orders s @ [ord] \<and> o_id ord = oid \<and>
         order_number ord = gen_order_number uuid_hex \<and>
         order_number ord \<notin> set (map order_number (orders s))) \<and>
      (distinct (map order_number (orders s)) \<longrightarrow> distinct (map order_number (orders s')))) \<and>
   (get_user s u \<noteq> None \<and> cart s u \<noteq> [] \<and>
    gen_order_number uuid_hex \<in> set (map order_number (orders s)) \<longrightarrow>
      checkout uuid_hex now fail_at s u POST = (Abort500, s))"
proof (intro conjI impI)
  assume placed: "checkout uuid_hex now fail_at s u meth = (OrderPlaced oid, s')"
  let ?ord = "\<lparr>o_id = oid, order_number = gen_order_number uuid_hex,
        total_amount = py_sum (map price (cart s u)), status = ''completed'',
        payment_method = ''card'', completed_at = Some now, buyer_id = u\<rparr>"
  have ord: "orders s' = orders s @ [?ord]" using placed by (rule checkout_placed(6))
  have fresh: "gen_order_number uuid_hex \<notin> set (map order_number (orders s))"
    using placed by (rule checkout_placed(4))
  show "\<exists>ord. orders s' = orders s @ [ord] \<and> o_id ord = oid \<and>
         order_number ord = gen_order_number uuid_hex \<and>
         order_number ord \<notin> set (map order_number (orders s))"
    using ord fresh by (intro exI[of _ ?ord]) simp
  show "distinct (map order_number (orders s'))" if "distinct (map order_number (orders s))"
    using that fresh by (simp add: ord)
next
  assume "get_user s u \<noteq> None \<and> cart s u \<noteq> [] \<and>
    gen_order_number uuid_hex \<in> set (map order_number (orders s))"
  then show "checkout uuid_hex now fail_at s u POST = (Abort500, s)"
    using checkout_collision[of s u _ uuid_hex now fail_at] by auto
qed

theorem checkout_order_number_fresh_witness:
  "checkout demo_uuid 7 None demo_cart 2 POST = (OrderPlaced 1, demo_bought) \<and>
   orders demo_cart = [] \<and>
   map order_number (orders demo_bought) = [''SS-DEADBEEF''] \<and>
   distinct (map order_number (orders demo_bought)) \<and>
   checkout demo_uuid 8 None demo_again 2 POST = (Abort500, demo_again)"
proof -
  have co: "checkout demo_uuid 7 None demo_cart 2 POST = (OrderPlaced 1, demo_bought)"
    by code_simp
  have e: "orders demo_cart = []" by code_simp
  have n: "map order_number (orders demo_bought) = [''SS-DEADBEEF'']" by code_simp
  have pre: "get_user demo_again 2 \<noteq> None \<and> cart demo_again 2 \<noteq> [] \<and>
    gen_order_number demo_uuid \<in> set (map order_number (orders demo_again))"
    by code_simp
  have d: "distinct (map order_number (orders demo_bought))"
    using checkout_order_number_fresh[of demo_uuid 7 None demo_cart 2 POST 1 demo_bought] co e
    by simp
  have a: "checkout demo_uuid 8 None demo_again 2 POST = (Abort500, demo_again)"
    using checkout_order_number_fresh[of demo_uuid 8 None demo_again 2 POST 0 demo_again] pre
    by blast
  from co e n d a show ?thesis by (intro conjI)
qed

section \<open>Earnings\<close>











section \<open>Deleted materials\<close>






section \<open>The integrity constraints in reachable states\<close>

lemma download_material_order_ids:
  "map order_id (order_items (snd (download_material now s u mid))) = map order_id (order_items s)"
  by (simp add: download_material_def Let_def comp_def split: option.splits cong: map_cong)

lemma checkout_constraints:
  assumes "order_items_fk s \<and> cart_items_pk s"
  shows "order_items_fk (snd (checkout uuid_hex now fail_at s u meth)) \<and>
         cart_items_pk (snd (checkout uuid_hex now fail_at s u meth))"
proof (cases "checkout uuid_hex now fail_at s u meth")
  case (Pair r s')
  from checkout_failed[OF Pair] show ?thesis
  proof
    assume "\<exists>oid. r = OrderPlaced oid"
    then obtain oid where placed: "checkout uuid_hex now fail_at s u meth = (OrderPlaced oid, s')"
      using Pair by auto
    from checkout_placed(7)[OF placed] obtain new where
      new: "order_items s' = order_items s @ new"
      and proj: "map (\<lambda>i. (order_id i, material_id i, oi_price i)) new =
                 map (\<lambda>m. (oid, m_id m, price m)) (cart s u)"
      by blast
    have "map order_id new = map (\<lambda>m. oid) (cart s u)"
      using arg_cong[OF proj, of "map fst"] by (simp add: comp_def)
    then have "set (map order_id new) \<subseteq> {oid}"
      by (simp only: set_map) auto
    then have newids: "\<forall>i \<in> set new. order_id i = oid" by auto
    have "order_items_fk s'"
      using assms newids unfolding order_items_fk_def new checkout_placed(6)[OF placed]
      by auto
    moreover have "cart_items_pk s'"
      using assms unfolding cart_items_pk_def checkout_placed(10)[OF placed] by simp
    ultimately show ?thesis by (simp add: Pair)
  next
    assume "s' = s"
    then show ?thesis using assms Pair by simp
  qed
qed

lemma add_to_cart_pk:
  assumes "cart_items_pk s"
  shows "cart_items_pk (snd (add_to_cart s u mid))"
proof (cases "get_user s u")
  case None
  then show ?thesis using assms by (simp add: add_to_cart_def)
next
  case (Some cu)
  show ?thesis
  proof (cases "get_material s mid")
    case None
    then show ?thesis using assms Some by (simp add: add_to_cart_def)
  next
    case (Some m)
    then show ?thesis using assms \<open>get_user s u = Some cu\<close> in_cart_iff[OF Some, of u]
      by (simp add: add_to_cart_def cart_items_pk_def)
  qed
qed

lemma handle_constraints:
  assumes "order_items_fk s \<and> cart_items_pk s"
  shows "order_items_fk (snd (handle req s)) \<and> cart_items_pk (snd (handle req s))"
proof (cases req)
  case (Register cur meth a b c d)
  then show ?thesis using assms
    by (simp add: order_items_fk_def cart_items_pk_def register_tables)
next
  case (Sell uuid_hex u meth t d p f)
  then show ?thesis using assms
    by (simp add: order_items_fk_def cart_items_pk_def sell_tables)
next
  case (EditMaterial u meth mid t d p)
  then show ?thesis using assms
    by (simp add: order_items_fk_def cart_items_pk_def edit_material_tables)
next
  case (DeleteMaterial u mid)
  then show ?thesis using assms
    by (simp add: order_items_fk_def cart_items_pk_def delete_material_tables)
next
  case (MaterialDetail mid)
  then show ?thesis using assms
    by (simp add: order_items_fk_def cart_items_pk_def material_detail_tables)
next
  case (AddToCart u mid)
  then show ?thesis using assms add_to_cart_pk[of s u mid]
    by (simp add: order_items_fk_def add_to_cart_tables)
next
  case (RemoveFromCart u mid)
  have "distinct (cart_items (snd (remove_from_cart s u mid)))" if "distinct (cart_items s)"
    using that by (simp add: remove_from_cart_def split: option.splits)
  then show ?thesis using assms RemoveFromCart
    by (simp add: order_items_fk_def cart_items_pk_def remove_from_cart_tables)
next
  case (Checkout uuid_hex now fail_at u meth)
  then show ?thesis using checkout_constraints[OF assms] by simp
next
  case (Download now u mid)
  have "set (map order_id (order_items (snd (download_material now s u mid)))) =
        set (map order_id (order_items s))"
    by (simp only: download_material_order_ids)
  moreover have "order_items_fk t \<longleftrightarrow> set (map order_id (order_items t)) \<subseteq> set (map o_id (orders t))"
    for t by (auto simp: order_items_fk_def)
  ultimately have "order_items_fk (snd (download_material now s u mid))"
    using assms by (simp only: download_material_tables)
  then show ?thesis using assms Download
    by (simp add: cart_items_pk_def download_material_tables)
next
  case (AddReview u mid r c)
  then show ?thesis using assms
    by (simp add: order_items_fk_def cart_items_pk_def add_review_tables)
qed

lemma reachable_constraints:
  "order_items_fk (run reqs empty_db) \<and> cart_items_pk (run reqs empty_db)"
proof (rule run_invariant[where P = "\<lambda>s. order_items_fk s \<and> cart_items_pk s"])
  show "order_items_fk empty_db \<and> cart_items_pk empty_db"
    by (simp add: order_items_fk_def cart_items_pk_def empty_db_def)
  show "order_items_fk (snd (handle req st)) \<and> cart_items_pk (snd (handle req st))"
    if "order_items_fk st \<and> cart_items_pk st" for req st
    using that by (rule handle_constraints)
qed

end
